theory Spec2Isabelle
  imports Complex_Main "HOL-Library.AList"
begin

section \<open>Federated averaging server: values and Python primitives\<close>

text \<open>
  The development embeds the server-side aggregation code of
  \<^verbatim>\<open>plato/servers/fedavg.py\<close> (class \<^verbatim>\<open>Server\<close>), of the older
  \<^verbatim>\<open>servers/fedavg.py\<close> (class \<^verbatim>\<open>FedAvgServer\<close>) and of
  \<^verbatim>\<open>trainers/trainer.py\<close>. Python floats are read as real numbers, so every
  statement below is about exact arithmetic; Python integers are \<^typ>\<open>int\<close>.
  Every exception the code can raise is a value of \<open>error\<close>, and a computation that
  may raise returns \<open>error + 'a\<close> with \<open>Inl\<close> for the exception.
\<close>

datatype error =
    IndexError
  | KeyError
  | ZeroDivisionError
  | ValueError
  | TypeError
  | ShapeError
  | StopIteration
  | RuntimeError

text \<open>
  A tensor is its shape together with its entries in flattened (row-major) order.
  The tensor library is not part of the repository; its operations are the three the
  code uses: \<^verbatim>\<open>zeros(shape)\<close>, \<^verbatim>\<open>delta * scalar\<close> and the elementwise
  \<^verbatim>\<open>a += b\<close>, \<^verbatim>\<open>a + b\<close>, \<^verbatim>\<open>a - b\<close>. The elementwise operations are
  defined on operands of one shape, as section 4.1 of the specification has them, and
  raise \<open>ShapeError\<close> otherwise; broadcasting between different shapes is not
  modelled, and no result below rests on what a shape mismatch does.
\<close>

datatype tensor = Tensor (shape: "nat list") (entries: "real list")

definition wf_tensor :: "tensor \<Rightarrow> bool" where
  "wf_tensor t = (length (entries t) = prod_list (shape t))"

definition zeros :: "nat list \<Rightarrow> tensor" where
  "zeros sh = Tensor sh (replicate (prod_list sh) 0)"

definition tensor_scale :: "tensor \<Rightarrow> real \<Rightarrow> tensor" where
  "tensor_scale t c = Tensor (shape t) (map (\<lambda>x. x * c) (entries t))"

definition tensor_add :: "tensor \<Rightarrow> tensor \<Rightarrow> error + tensor" where
  "tensor_add a b =
     (if shape a = shape b
      then Inr (Tensor (shape a) (map2 (+) (entries a) (entries b)))
      else Inl ShapeError)"

definition tensor_sub :: "tensor \<Rightarrow> tensor \<Rightarrow> error + tensor" where
  "tensor_sub a b =
     (if shape a = shape b
      then Inr (Tensor (shape a) (map2 (-) (entries a) (entries b)))
      else Inl ShapeError)"

text \<open>
  A Python \<^verbatim>\<open>dict\<close> from parameter names to tensors, in insertion order, is an
  association list; a well-formed one has no repeated key.
\<close>

type_synonym weights = "(string \<times> tensor) list"

text \<open>The name/shape schema of a weight store.\<close>

definition schema :: "weights \<Rightarrow> (string \<times> nat list) set" where
  "schema w = set (map (\<lambda>(name, t). (name, shape t)) w)"

text \<open>Python's \<^verbatim>\<open>sum\<close> starts from 0 and adds from the left.\<close>

definition py_sum_int :: "int list \<Rightarrow> int" where
  "py_sum_int xs = foldl (+) 0 xs"

definition py_sum :: "real list \<Rightarrow> real" where
  "py_sum xs = foldl (+) 0 xs"

text \<open>True division of two Python integers.\<close>

definition truediv :: "int \<Rightarrow> int \<Rightarrow> error + real" where
  "truediv a b = (if b = 0 then Inl ZeroDivisionError else Inr (real_of_int a / real_of_int b))"

text \<open>A list comprehension whose element expression may raise.\<close>

fun try_map :: "('a \<Rightarrow> error + 'b) \<Rightarrow> 'a list \<Rightarrow> error + 'b list" where
  "try_map f [] = Inr []"
| "try_map f (x # xs) =
     (case f x of
        Inl e \<Rightarrow> Inl e
      | Inr y \<Rightarrow> (case try_map f xs of Inl e \<Rightarrow> Inl e | Inr ys \<Rightarrow> Inr (y # ys)))"

subsection \<open>Reports and updates\<close>

record report =
  num_samples :: int
  accuracy :: real
  processing_time :: real
  comm_time :: real
  training_time :: real

text \<open>An element of \<^verbatim>\<open>self.updates\<close>: the client's report and its payload.\<close>

record client_update =
  report :: report
  payload :: weights

section \<open>Metrics: \<^verbatim>\<open>Server.get_accuracy_mean_std\<close>\<close>

definition total_samples_of :: "client_update list \<Rightarrow> int" where
  "total_samples_of upds = py_sum_int (map (\<lambda>u. num_samples (report u)) upds)"

text \<open>
  \<^verbatim>\<open>weights = [update.report.num_samples / total_samples for update in updates]\<close>
\<close>

definition sample_weights :: "client_update list \<Rightarrow> error + real list" where
  "sample_weights upds =
     try_map (\<lambda>u. truediv (num_samples (report u)) (total_samples_of upds)) upds"

definition get_accuracy_mean_std :: "client_update list \<Rightarrow> error + (real \<times> real)" where
  "get_accuracy_mean_std upds =
     (let updates_accuracy = map (\<lambda>u. accuracy (report u)) upds in
      case sample_weights upds of
        Inl e \<Rightarrow> Inl e
      | Inr ws \<Rightarrow>
          (let mean = py_sum (map (\<lambda>(idx, acc). acc * ws ! idx) (enumerate 0 updates_accuracy));
               variance = py_sum (map (\<lambda>(idx, acc). (acc - mean)\<^sup>2 * ws ! idx)
                                      (enumerate 0 updates_accuracy));
               std = variance powr (1 / 2)
           in Inr (mean, std)))"

text \<open>
  Two concrete batches: the reports of the aggregation scenario (sample counts 1 and 3,
  weights \<open>[1, 1]\<close> and \<open>[5, 1]\<close> for the one parameter \<open>w\<close>) and the reports
  of the accuracy scenario.
\<close>

definition two_updates :: "client_update list" where
  "two_updates =
     [\<lparr>report = \<lparr>num_samples = 1, accuracy = 1, processing_time = 0, comm_time = 0,
                  training_time = 0\<rparr>,
       payload = [(''w'', Tensor [2] [1, 1])]\<rparr>,
      \<lparr>report = \<lparr>num_samples = 3, accuracy = 1, processing_time = 0, comm_time = 0,
                  training_time = 0\<rparr>,
       payload = [(''w'', Tensor [2] [5, 1])]\<rparr>]"

definition accuracy_scenario :: "client_update list" where
  "accuracy_scenario =
     [\<lparr>report = \<lparr>num_samples = 2, accuracy = 8 / 10, processing_time = 0, comm_time = 0,
                  training_time = 0\<rparr>, payload = []\<rparr>,
      \<lparr>report = \<lparr>num_samples = 2, accuracy = 6 / 10, processing_time = 0, comm_time = 0,
                  training_time = 0\<rparr>, payload = []\<rparr>]"


section \<open>Aggregation: \<^verbatim>\<open>Server.aggregate_deltas\<close>\<close>

text \<open>
  The part of the server object the embedded methods read or write. The global model
  is held by \<^verbatim>\<open>self.algorithm\<close>; its weights are the field \<open>model_weights\<close>.
\<close>

record server =
  total_samples :: int
  current_round :: int
  updates :: "client_update list"
  model_weights :: weights
  server_accuracy :: real
  server_accuracy_std :: real

text \<open>
  The inner loop \<^verbatim>\<open>for name, delta in update.items()\<close> with the statement
  \<^verbatim>\<open>avg_update[name] += delta * (num_samples / self.total_samples)\<close>. Python reads
  \<^verbatim>\<open>avg_update[name]\<close> first (\<open>KeyError\<close>), then evaluates the right-hand side
  (\<open>ZeroDivisionError\<close>), then adds in place.
\<close>

fun accumulate_delta :: "weights \<Rightarrow> (string \<times> tensor) list \<Rightarrow> int \<Rightarrow> int \<Rightarrow> error + weights" where
  "accumulate_delta avg_update [] n tot = Inr avg_update"
| "accumulate_delta avg_update ((name, delta) # items) n tot =
     (case map_of avg_update name of
        None \<Rightarrow> Inl KeyError
      | Some cur \<Rightarrow>
          (case truediv n tot of
             Inl e \<Rightarrow> Inl e
           | Inr w \<Rightarrow>
               (case tensor_add cur (tensor_scale delta w) of
                  Inl e \<Rightarrow> Inl e
                | Inr new \<Rightarrow> accumulate_delta (AList.update name new avg_update) items n tot)))"

text \<open>
  The outer loop \<^verbatim>\<open>for i, update in enumerate(deltas_received)\<close>, which reads
  \<^verbatim>\<open>updates[i].report\<close> (\<open>IndexError\<close> when \<open>i\<close> is out of range). The
  \<^verbatim>\<open>await asyncio.sleep(0)\<close> at the end of its body touches no data.
\<close>

fun aggregate_loop ::
  "weights \<Rightarrow> client_update list \<Rightarrow> int \<Rightarrow> nat \<Rightarrow> weights list \<Rightarrow> error + weights" where
  "aggregate_loop avg_update upds tot i [] = Inr avg_update"
| "aggregate_loop avg_update upds tot i (update # rest) =
     (if i < length upds
      then (case accumulate_delta avg_update update (num_samples (report (upds ! i))) tot of
              Inl e \<Rightarrow> Inl e
            | Inr avg' \<Rightarrow> aggregate_loop avg' upds tot (Suc i) rest)
      else Inl IndexError)"

text \<open>
  \<^verbatim>\<open>aggregate_deltas\<close> returns the averaged delta or the exception, together with the
  server after the call: \<^verbatim>\<open>self.total_samples\<close> is assigned before anything can raise.
\<close>

definition aggregate_deltas ::
  "server \<Rightarrow> client_update list \<Rightarrow> weights list \<Rightarrow> (error + weights) \<times> server" where
  "aggregate_deltas srv upds deltas_received =
     (let srv' = srv\<lparr>total_samples := total_samples_of upds\<rparr> in
      case deltas_received of
        [] \<Rightarrow> (Inl IndexError, srv')
      | first # _ \<Rightarrow>
          (aggregate_loop (map (\<lambda>(name, delta). (name, zeros (shape delta))) first)
             upds (total_samples srv') 0 deltas_received,
           srv'))"

section \<open>Convergence estimator (in \<^verbatim>\<open>Server._process_reports\<close>)\<close>

text \<open>
  \<^verbatim>\<open>param.detach().cpu().numpy().flatten()\<close> gives the entries of the parameter.
  For the column vector \<^verbatim>\<open>p_arr.reshape(-1, 1)\<close> the reduced singular value
  decomposition has \<open>min (n, 1)\<close> singular values: none for an empty vector, otherwise
  the Euclidean norm. \<^verbatim>\<open>np.mean\<close> of an empty list is NaN, written \<open>None\<close>.
\<close>

definition flatten :: "tensor \<Rightarrow> real list" where
  "flatten param = entries param"

definition svd_column :: "real list \<Rightarrow> real list" where
  "svd_column p_arr = (if p_arr = [] then [] else [sqrt (\<Sum>x\<leftarrow>p_arr. x\<^sup>2)])"

definition np_mean :: "real list \<Rightarrow> real option" where
  "np_mean xs = (if xs = [] then None else Some (sum_list xs / real (length xs)))"

definition s_average :: "weights \<Rightarrow> real option" where
  "s_average updated_weights =
     (let param_arrays = map (\<lambda>(name, param). flatten param) updated_weights;
          all_s_values = foldl (\<lambda>all_s p_arr. all_s @ svd_column p_arr) [] param_arrays
      in np_mean all_s_values)"

text \<open>
  The drift magnitude in the words of the specification: the arithmetic mean, over the
  parameters of a store, of the Euclidean norm of the flattened parameter.
\<close>

definition mean_of_parameter_norms :: "weights \<Rightarrow> real" where
  "mean_of_parameter_norms w =
     (\<Sum>(name, param)\<leftarrow>w. sqrt (\<Sum>x\<leftarrow>entries param. x\<^sup>2)) / real (length w)"

text \<open>A store with a parameter that has no entries, and one with none such.\<close>

definition sparse_store :: weights where
  "sparse_store = [(''a'', Tensor [0] []), (''b'', Tensor [2] [3, 4])]"

definition dense_store :: weights where
  "dense_store = [(''a'', Tensor [2] [3, 4]), (''b'', Tensor [1, 1] [1])]"

text \<open>
  \<^verbatim>\<open>math.log(x, base)\<close> is \<open>log(x) / log(base)\<close>: a \<open>ValueError\<close> for a
  non-positive argument or base, a \<open>ZeroDivisionError\<close> for base 1.
\<close>

definition math_log :: "real \<Rightarrow> real \<Rightarrow> error + real" where
  "math_log x base =
     (if x \<le> 0 then Inl ValueError
      else if base \<le> 0 then Inl ValueError
      else if ln base = 0 then Inl ZeroDivisionError
      else Inr (ln x / ln base))"

definition float_div :: "real \<Rightarrow> real \<Rightarrow> error + real" where
  "float_div a b = (if b = 0 then Inl ZeroDivisionError else Inr (a / b))"

text \<open>The guarded logarithm, lines 256 to 263.\<close>

definition estimate_t :: "real \<Rightarrow> real \<Rightarrow> real \<Rightarrow> error + real" where
  "estimate_t numerator denominator lambda_value =
     (if numerator > 0 \<and> denominator > 0 \<and> lambda_value > 0 \<and> lambda_value \<noteq> 1
      then (case float_div numerator denominator of
              Inl e \<Rightarrow> Inl e
            | Inr argument \<Rightarrow> math_log argument lambda_value)
      else Inr (- 1))"

text \<open>
  The constants as the method assigns them, in its order: \<open>mu\<close> is assigned twice
  and \<open>lambda_value\<close> is recomputed after the second assignment.
\<close>

definition estimator_inputs :: "real \<Rightarrow> real \<times> real \<times> real" where
  "estimator_inputs s_avg =
     (let n = 4 / 100;
          mu = 5 / 10;
          bar_rho = 1;
          lambda_value = 1 - n * mu * (1 + (3 * bar_rho) / 8);
          L = 1;
          C = 2 / 10;
          D = 1 / 10;
          mu = 3 / 10;
          lambda_value = 1 - n * mu * (1 + (3 * bar_rho) / 8);
          x = (4 * L * (n * C + D)) / (mu * (8 + 3 * bar_rho));
          delta_g = s_avg;
          A1 = 18;
          numerator = delta_g - x;
          denominator = (L / mu) * A1 - 1
      in (numerator, denominator, lambda_value))"

text \<open>
  With a NaN average every comparison of the guard is false, so the sentinel branch
  is taken.
\<close>

definition stopping_time :: "real option \<Rightarrow> error + real" where
  "stopping_time s_avg =
     (case s_avg of
        None \<Rightarrow> Inr (- 1)
      | Some s \<Rightarrow>
          (case estimator_inputs s of
             (numerator, denominator, lambda_value) \<Rightarrow>
               estimate_t numerator denominator lambda_value))"

text \<open>\<^verbatim>\<open>if t >= self.current_round: raise StopIteration\<close>\<close>

definition stop_check :: "real \<Rightarrow> int \<Rightarrow> error + unit" where
  "stop_check t current = (if t \<ge> real_of_int current then Inl StopIteration else Inr ())"

section \<open>Report processing: \<^verbatim>\<open>Server._process_reports\<close>\<close>

text \<open>
  The collaborators of the method whose code is outside the embedded files are
  parameters: the two operations of \<^verbatim>\<open>self.algorithm\<close> (given the baseline weights
  explicitly), the optional \<^verbatim>\<open>aggregate_weights\<close> method of a subclass, the
  configuration test \<^verbatim>\<open>hasattr(Config().server, "do_test") and not Config().server.do_test\<close>
  and \<^verbatim>\<open>self.trainer.test\<close>. Callbacks and logging are taken to leave the
  fields of \<open>server\<close> alone.
\<close>

record collaborators =
  compute_weight_deltas :: "weights \<Rightarrow> weights list \<Rightarrow> error + weights list"
  update_weights :: "weights \<Rightarrow> weights \<Rightarrow> error + weights"
  aggregate_weights :: "(client_update list \<Rightarrow> weights \<Rightarrow> weights list \<Rightarrow> error + weights) option"
  client_reported_accuracy :: bool
  trainer_test :: "weights \<Rightarrow> error + real"

text \<open>The aggregation step, up to and excluding \<^verbatim>\<open>load_weights\<close>.\<close>

definition aggregate_step :: "collaborators \<Rightarrow> server \<Rightarrow> (error + weights) \<times> server" where
  "aggregate_step env srv =
     (let weights_received = map payload (updates srv);
          baseline_weights = model_weights srv
      in case aggregate_weights env of
           Some strategy \<Rightarrow> (strategy (updates srv) baseline_weights weights_received, srv)
         | None \<Rightarrow>
             (case compute_weight_deltas env baseline_weights weights_received of
                Inl e \<Rightarrow> (Inl e, srv)
              | Inr deltas_received \<Rightarrow>
                  (case aggregate_deltas srv (updates srv) deltas_received of
                     (Inl e, srv1) \<Rightarrow> (Inl e, srv1)
                   | (Inr deltas, srv1) \<Rightarrow> (update_weights env baseline_weights deltas, srv1))))"

text \<open>The accuracy step after the stop test.\<close>

definition accuracy_step :: "collaborators \<Rightarrow> server \<Rightarrow> (error + unit) \<times> server" where
  "accuracy_step env srv =
     (if client_reported_accuracy env
      then (case get_accuracy_mean_std (updates srv) of
              Inl e \<Rightarrow> (Inl e, srv)
            | Inr (mean, std) \<Rightarrow>
                (Inr (), srv\<lparr>server_accuracy := mean, server_accuracy_std := std\<rparr>))
      else (case trainer_test env (model_weights srv) of
              Inl e \<Rightarrow> (Inl e, srv)
            | Inr acc \<Rightarrow> (Inr (), srv\<lparr>server_accuracy := acc\<rparr>)))"

text \<open>The body of the method, with the exceptions as they are raised inside it.\<close>

definition process_reports_body :: "collaborators \<Rightarrow> server \<Rightarrow> (error + unit) \<times> server" where
  "process_reports_body env srv =
     (case aggregate_step env srv of
        (Inl e, srv1) \<Rightarrow> (Inl e, srv1)
      | (Inr updated_weights, srv1) \<Rightarrow>
          (let srv2 = srv1\<lparr>model_weights := updated_weights\<rparr> in
           case stopping_time (s_average updated_weights) of
             Inl e \<Rightarrow> (Inl e, srv2)
           | Inr t \<Rightarrow>
               (case stop_check t (current_round srv2) of
                  Inl e \<Rightarrow> (Inl e, srv2)
                | Inr _ \<Rightarrow> accuracy_step env srv2)))"

text \<open>
  The method is declared \<^verbatim>\<open>async def\<close>. A \<open>StopIteration\<close> raised inside the body of
  a coroutine does not leave it as such: the awaiting caller receives a
  \<open>RuntimeError\<close> (``coroutine raised StopIteration''). Every other outcome passes
  through. \<^verbatim>\<open>aggregate_deltas\<close> is a coroutine too, and never raises
  \<open>StopIteration\<close>.
\<close>

definition coroutine_result :: "(error + 'a) \<times> 's \<Rightarrow> (error + 'a) \<times> 's" where
  "coroutine_result r =
     (if fst r = Inl StopIteration then (Inl RuntimeError, snd r) else r)"

definition process_reports :: "collaborators \<Rightarrow> server \<Rightarrow> (error + unit) \<times> server" where
  "process_reports env srv = coroutine_result (process_reports_body env srv)"

section \<open>The operations of \<^verbatim>\<open>self.algorithm\<close>\<close>

text \<open>
  Modelled from the spec: \<^verbatim>\<open>subtract(a, b)\<close> of section 4.1, the elementwise
  \<open>a[name] - b[name]\<close> over the names of \<open>a\<close>; the tensor package behind
  \<^verbatim>\<open>self.algorithm\<close> (\<^verbatim>\<open>plato.algorithms\<close>) is not among the embedded files.
\<close>

definition subtract_weights :: "weights \<Rightarrow> weights \<Rightarrow> error + weights" where
  "subtract_weights a b =
     try_map (\<lambda>(name, x).
        case map_of b name of
          None \<Rightarrow> Inl KeyError
        | Some y \<Rightarrow> (case tensor_sub x y of Inl e \<Rightarrow> Inl e | Inr d \<Rightarrow> Inr (name, d))) a"

text \<open>
  Modelled from the spec: \<^verbatim>\<open>self.algorithm.compute_weight_deltas\<close>, missing with
  \<^verbatim>\<open>plato.algorithms\<close>; section 4.2 has \<open>delta_i = payload - baseline\<close> for each
  report.
\<close>

definition spec_compute_weight_deltas :: "weights \<Rightarrow> weights list \<Rightarrow> error + weights list" where
  "spec_compute_weight_deltas baseline weights_received =
     try_map (\<lambda>w. subtract_weights w baseline) weights_received"

text \<open>
  Modelled from the spec: \<^verbatim>\<open>self.algorithm.update_weights\<close>, missing with
  \<^verbatim>\<open>plato.algorithms\<close>; section 4.2 has \<open>updated = baseline + avg_delta\<close>, by name
  over the names of the baseline.
\<close>

definition spec_update_weights :: "weights \<Rightarrow> weights \<Rightarrow> error + weights" where
  "spec_update_weights baseline deltas =
     try_map (\<lambda>(name, x).
        case map_of deltas name of
          None \<Rightarrow> Inl KeyError
        | Some d \<Rightarrow> (case tensor_add x d of Inl e \<Rightarrow> Inl e | Inr y \<Rightarrow> Inr (name, y))) baseline"

text \<open>
  A delta-mode deployment in which clients report their accuracy, and two one-client
  rounds of it: one whose model has norm 1, one whose model is zero.
\<close>

definition delta_env :: collaborators where
  "delta_env =
     \<lparr>compute_weight_deltas = spec_compute_weight_deltas,
      update_weights = spec_update_weights,
      aggregate_weights = None,
      client_reported_accuracy = True,
      trainer_test = (\<lambda>w. Inr 0)\<rparr>"

definition one_client :: "real \<Rightarrow> client_update list" where
  "one_client v =
     [\<lparr>report = \<lparr>num_samples = 1, accuracy = 9 / 10, processing_time = 0, comm_time = 0,
                  training_time = 0\<rparr>,
       payload = [(''w'', Tensor [1] [v])]\<rparr>]"

definition round_one_server :: "real \<Rightarrow> server" where
  "round_one_server v =
     \<lparr>total_samples = 0, current_round = 1, updates = one_client v,
      model_weights = [(''w'', Tensor [1] [v])],
      server_accuracy = 0, server_accuracy_std = 0\<rparr>"

section \<open>Notions used to state the aggregation results\<close>

text \<open>Elementwise addition of two tensors of one shape, as a total function.\<close>

definition tadd :: "tensor \<Rightarrow> tensor \<Rightarrow> tensor" where
  "tadd a b = Tensor (shape a) (map2 (+) (entries a) (entries b))"

text \<open>
  A delta conforms to an accumulator when each of its names is a key of the accumulator
  and the shapes agree.
\<close>

definition conforms :: "weights \<Rightarrow> weights \<Rightarrow> bool" where
  "conforms avg d =
     list_all (\<lambda>(name, t). case map_of avg name of None \<Rightarrow> False | Some cur \<Rightarrow> shape cur = shape t) d"

text \<open>
  What one report adds to the accumulated tensor of a name: its delta for that name
  scaled by its share of the samples, or nothing when the delta lacks the name.
\<close>

definition contribution :: "int \<Rightarrow> string \<Rightarrow> tensor \<Rightarrow> client_update \<times> weights \<Rightarrow> tensor" where
  "contribution tot name cur ud =
     (case map_of (snd ud) name of
        None \<Rightarrow> cur
      | Some t \<Rightarrow>
          tadd cur (tensor_scale t
            (real_of_int (num_samples (report (fst ud))) / real_of_int tot)))"

text \<open>
  A valid batch for a baseline: one delta per report, a non-zero sample total, and
  every delta a well-formed dictionary with the name/shape schema of the baseline.
\<close>

definition valid_batch :: "weights \<Rightarrow> client_update list \<Rightarrow> weights list \<Rightarrow> bool" where
  "valid_batch baseline upds deltas =
     (deltas \<noteq> [] \<and> length upds = length deltas \<and> total_samples_of upds \<noteq> 0
      \<and> distinct (map fst baseline)
      \<and> list_all (\<lambda>d. distinct (map fst d) \<and> schema d = schema baseline) deltas)"

text \<open>
  The averaged delta in the words of the specification: for each parameter, the sum
  over the reports, in arrival order, of the report's delta scaled by
  \<open>num_samples\<^sub>i / total_samples\<close>.
\<close>

definition avg_delta_spec :: "client_update list \<Rightarrow> weights list \<Rightarrow> weights" where
  "avg_delta_spec upds deltas =
     map (\<lambda>(name, t0).
            (name,
             foldl tadd (zeros (shape t0))
               (map (\<lambda>(u, d). tensor_scale (the (map_of d name))
                       (real_of_int (num_samples (report u)) / real_of_int (total_samples_of upds)))
                    (zip upds deltas))))
         (hd deltas)"

section \<open>Concrete batches\<close>

text \<open>
  The aggregation scenario: baseline \<open>w = [1, 1]\<close> and the deltas \<open>[0, 0]\<close> and
  \<open>[4, 0]\<close> of the two reports.
\<close>

definition scenario_baseline :: weights where
  "scenario_baseline = [(''w'', Tensor [2] [1, 1])]"

definition scenario_deltas :: "weights list" where
  "scenario_deltas = [[(''w'', Tensor [2] [0, 0])], [(''w'', Tensor [2] [4, 0])]]"

definition scenario_server :: server where
  "scenario_server =
     \<lparr>total_samples = 0, current_round = 1, updates = two_updates,
      model_weights = scenario_baseline, server_accuracy = 0, server_accuracy_std = 0\<rparr>"

text \<open>A third report whose delta carries a parameter the baseline does not have.\<close>

definition stray_update :: client_update where
  "stray_update =
     \<lparr>report = \<lparr>num_samples = 4, accuracy = 1, processing_time = 0, comm_time = 0,
                 training_time = 0\<rparr>,
      payload = [(''w'', Tensor [2] [2, 2]), (''extra'', Tensor [1] [1])]\<rparr>"

definition stray_delta :: weights where
  "stray_delta = [(''w'', Tensor [2] [1, 1]), (''extra'', Tensor [1] [1])]"

text \<open>A report with no samples, with and without a parameter in its delta.\<close>

definition empty_report :: "weights \<Rightarrow> client_update" where
  "empty_report w =
     \<lparr>report = \<lparr>num_samples = 0, accuracy = 1, processing_time = 0, comm_time = 0,
                 training_time = 0\<rparr>,
      payload = w\<rparr>"

definition empty_report_server :: server where
  "empty_report_server =
     \<lparr>total_samples = 7, current_round = 1, updates = [empty_report scenario_baseline],
      model_weights = scenario_baseline, server_accuracy = 0, server_accuracy_std = 0\<rparr>"

section \<open>The older server: \<^verbatim>\<open>trainers/trainer.py\<close> and \<^verbatim>\<open>servers/fedavg.py\<close>\<close>

text \<open>
  A report of the older server carries the client's weights itself. Of its fields the
  embedded methods read \<open>num_samples\<close>, \<open>accuracy\<close> and \<open>weights\<close>.
\<close>

record legacy_report = report +
  weights :: weights

text \<open>
  \<^verbatim>\<open>Trainer.extract_weights\<close> returns \<^verbatim>\<open>self.model.state_dict()\<close>, a dictionary from
  names to tensors; the model is the field \<open>model_weights\<close>.
\<close>

definition extract_weights :: "server \<Rightarrow> weights" where
  "extract_weights srv = model_weights srv"

text \<open>
  \<^verbatim>\<open>Trainer.compute_weight_updates\<close>: for each received dictionary the list of
  \<open>(name, current_weight - baseline_weights[name])\<close>.
\<close>

definition weight_update :: "weights \<Rightarrow> weights \<Rightarrow> error + (string \<times> tensor) list" where
  "weight_update baseline_weights weight =
     try_map (\<lambda>(name, current_weight).
        case map_of baseline_weights name of
          None \<Rightarrow> Inl KeyError
        | Some baseline \<Rightarrow>
            (case tensor_sub current_weight baseline of
               Inl e \<Rightarrow> Inl e
             | Inr delta \<Rightarrow> Inr (name, delta))) weight"

definition compute_weight_updates ::
  "server \<Rightarrow> weights list \<Rightarrow> error + (string \<times> tensor) list list" where
  "compute_weight_updates srv weights_received =
     (let baseline_weights = extract_weights srv
      in try_map (weight_update baseline_weights) weights_received)"

text \<open>
  The inner loop of \<^verbatim>\<open>federated_averaging\<close>,
  \<^verbatim>\<open>for j, (__, delta) in enumerate(update): avg_update[j] += delta * (num_samples / self.total_samples)\<close>,
  on the list \<open>avg_update\<close>.
\<close>

fun average_update ::
  "tensor list \<Rightarrow> nat \<Rightarrow> (string \<times> tensor) list \<Rightarrow> int \<Rightarrow> int \<Rightarrow> error + tensor list" where
  "average_update avg_update j [] n tot = Inr avg_update"
| "average_update avg_update j ((uu, delta) # rest) n tot =
     (if j < length avg_update
      then (case truediv n tot of
              Inl e \<Rightarrow> Inl e
            | Inr w \<Rightarrow>
                (case tensor_add (avg_update ! j) (tensor_scale delta w) of
                   Inl e \<Rightarrow> Inl e
                 | Inr new \<Rightarrow> average_update (avg_update[j := new]) (Suc j) rest n tot))
      else Inl IndexError)"

text \<open>The outer loop \<^verbatim>\<open>for i, update in enumerate(updates)\<close>.\<close>

fun average_updates ::
  "tensor list \<Rightarrow> legacy_report list \<Rightarrow> int \<Rightarrow> nat \<Rightarrow> (string \<times> tensor) list list
   \<Rightarrow> error + tensor list" where
  "average_updates avg_update reports tot i [] = Inr avg_update"
| "average_updates avg_update reports tot i (update # rest) =
     (if i < length reports
      then (case average_update avg_update 0 update (num_samples (reports ! i)) tot of
              Inl e \<Rightarrow> Inl e
            | Inr avg' \<Rightarrow> average_updates avg' reports tot (Suc i) rest)
      else Inl IndexError)"

text \<open>
  The last loop is \<^verbatim>\<open>for i, (name, weight) in enumerate(baseline_weights)\<close>. Iterating
  a dictionary yields its keys, so each key, a string, is unpacked into \<open>(name, weight)\<close>:
  a \<open>ValueError\<close> unless the key has exactly two characters, and then \<open>weight\<close> is a
  one-character string, for which \<^verbatim>\<open>weight + avg_update[i]\<close> is a \<open>TypeError\<close>.
\<close>

definition unpack_pair :: "string \<Rightarrow> error + (string \<times> string)" where
  "unpack_pair key = (case key of [a, b] \<Rightarrow> Inr ([a], [b]) | _ \<Rightarrow> Inl ValueError)"

definition str_add_tensor :: "string \<Rightarrow> tensor \<Rightarrow> error + tensor" where
  "str_add_tensor s t = Inl TypeError"

fun add_baseline :: "tensor list \<Rightarrow> nat \<Rightarrow> string list \<Rightarrow> weights \<Rightarrow> error + weights" where
  "add_baseline avg_update i [] updated_weights = Inr updated_weights"
| "add_baseline avg_update i (key # keys) updated_weights =
     (case unpack_pair key of
        Inl e \<Rightarrow> Inl e
      | Inr (name, weight) \<Rightarrow>
          (if i < length avg_update
           then (case str_add_tensor weight (avg_update ! i) of
                   Inl e \<Rightarrow> Inl e
                 | Inr s \<Rightarrow> add_baseline avg_update (Suc i) keys (updated_weights @ [(name, s)]))
           else Inl IndexError))"

text \<open>
  \<^verbatim>\<open>FedAvgServer.federated_averaging\<close>: the updates are extracted first, then
  \<^verbatim>\<open>self.total_samples\<close> is assigned, then the three loops run.
\<close>

definition federated_averaging :: "server \<Rightarrow> legacy_report list \<Rightarrow> (error + weights) \<times> server" where
  "federated_averaging srv reports =
     (case compute_weight_updates srv (map weights reports) of
        Inl e \<Rightarrow> (Inl e, srv)
      | Inr upds \<Rightarrow>
          (let srv' = srv\<lparr>total_samples := py_sum_int (map num_samples reports)\<rparr> in
           case upds of
             [] \<Rightarrow> (Inl IndexError, srv')
           | first # _ \<Rightarrow>
               (case average_updates (map (\<lambda>(uu, x). zeros (shape x)) first) reports
                       (total_samples srv') 0 upds of
                  Inl e \<Rightarrow> (Inl e, srv')
                | Inr avg_update \<Rightarrow>
                    (let baseline_weights = extract_weights srv'
                     in (add_baseline avg_update 0 (map fst baseline_weights) [], srv')))))"

text \<open>\<^verbatim>\<open>FedAvgServer.accuracy_averaging\<close>\<close>

fun accuracy_loop :: "real \<Rightarrow> legacy_report list \<Rightarrow> int \<Rightarrow> error + real" where
  "accuracy_loop acc [] tot = Inr acc"
| "accuracy_loop acc (r # rs) tot =
     (case truediv (num_samples r) tot of
        Inl e \<Rightarrow> Inl e
      | Inr w \<Rightarrow> accuracy_loop (acc + accuracy r * w) rs tot)"

definition accuracy_averaging :: "legacy_report list \<Rightarrow> error + real" where
  "accuracy_averaging reports = accuracy_loop 0 reports (py_sum_int (map num_samples reports))"

text \<open>The reports of the aggregation scenario, for the older server.\<close>

definition scenario_reports :: "legacy_report list" where
  "scenario_reports =
     [\<lparr>num_samples = 1, accuracy = 1, processing_time = 0, comm_time = 0, training_time = 0,
       weights = [(''w'', Tensor [2] [1, 1])]\<rparr>,
      \<lparr>num_samples = 3, accuracy = 1, processing_time = 0, comm_time = 0, training_time = 0,
       weights = [(''w'', Tensor [2] [5, 1])]\<rparr>]"

section \<open>Aggregation over a store of tensor objects\<close>

text \<open>
  Tensors are mutable objects and \<^verbatim>\<open>+=\<close> on a tensor writes into the object. To see
  which objects \<^verbatim>\<open>aggregate_deltas\<close> writes, the tensors live in a store, a list
  indexed by address that only grows, and a dictionary holds addresses. The product
  \<^verbatim>\<open>delta * (num_samples / self.total_samples)\<close> is a temporary and stays a value.
\<close>

type_synonym store = "tensor list"

type_synonym ref_weights = "(string \<times> nat) list"

definition deref :: "store \<Rightarrow> ref_weights \<Rightarrow> weights" where
  "deref h d = map (\<lambda>(name, a). (name, h ! a)) d"

definition alloc :: "store \<Rightarrow> tensor \<Rightarrow> nat \<times> store" where
  "alloc h t = (length h, h @ [t])"

text \<open>
  \<^verbatim>\<open>{name: self.trainer.zeros(delta.shape) for name, delta in deltas_received[0].items()}\<close>:
  one new object per name.
\<close>

fun alloc_zeros :: "store \<Rightarrow> ref_weights \<Rightarrow> ref_weights \<times> store" where
  "alloc_zeros h [] = ([], h)"
| "alloc_zeros h ((name, a) # items) =
     (case alloc h (zeros (shape (h ! a))) of
        (r, h1) \<Rightarrow> (case alloc_zeros h1 items of (rest, h2) \<Rightarrow> ((name, r) # rest, h2)))"

text \<open>
  The inner loop: \<^verbatim>\<open>avg_update[name] += \<dots>\<close> writes the sum into the object that
  \<^verbatim>\<open>avg_update[name]\<close> refers to; the dictionary keeps the same address.
\<close>

fun accumulate_delta_h ::
  "store \<Rightarrow> ref_weights \<Rightarrow> ref_weights \<Rightarrow> int \<Rightarrow> int \<Rightarrow> (error + unit) \<times> store" where
  "accumulate_delta_h h avg_update [] n tot = (Inr (), h)"
| "accumulate_delta_h h avg_update ((name, a) # items) n tot =
     (case map_of avg_update name of
        None \<Rightarrow> (Inl KeyError, h)
      | Some r \<Rightarrow>
          (case truediv n tot of
             Inl e \<Rightarrow> (Inl e, h)
           | Inr w \<Rightarrow>
               (case tensor_add (h ! r) (tensor_scale (h ! a) w) of
                  Inl e \<Rightarrow> (Inl e, h)
                | Inr new \<Rightarrow> accumulate_delta_h (h[r := new]) avg_update items n tot)))"

fun aggregate_loop_h ::
  "store \<Rightarrow> ref_weights \<Rightarrow> client_update list \<Rightarrow> int \<Rightarrow> nat \<Rightarrow> ref_weights list
   \<Rightarrow> (error + unit) \<times> store" where
  "aggregate_loop_h h avg_update upds tot i [] = (Inr (), h)"
| "aggregate_loop_h h avg_update upds tot i (update # rest) =
     (if i < length upds
      then (case accumulate_delta_h h avg_update update (num_samples (report (upds ! i))) tot of
              (Inl e, h1) \<Rightarrow> (Inl e, h1)
            | (Inr u, h1) \<Rightarrow> aggregate_loop_h h1 avg_update upds tot (Suc i) rest)
      else (Inl IndexError, h))"

definition aggregate_deltas_h ::
  "store \<Rightarrow> server \<Rightarrow> client_update list \<Rightarrow> ref_weights list
   \<Rightarrow> (error + ref_weights) \<times> store \<times> server" where
  "aggregate_deltas_h h srv upds deltas_received =
     (let srv' = srv\<lparr>total_samples := total_samples_of upds\<rparr> in
      case deltas_received of
        [] \<Rightarrow> (Inl IndexError, h, srv')
      | first # _ \<Rightarrow>
          (case alloc_zeros h first of
             (avg_update, h0) \<Rightarrow>
               (case aggregate_loop_h h0 avg_update upds (total_samples srv') 0 deltas_received of
                  (Inl e, h1) \<Rightarrow> (Inl e, h1, srv')
                | (Inr u, h1) \<Rightarrow> (Inr avg_update, h1, srv'))))"

text \<open>
  The scenario in a store: the baseline at address 0, the two received weights at 1
  and 2, the two deltas at 3 and 4.
\<close>

definition scenario_store :: store where
  "scenario_store =
     [Tensor [2] [1, 1], Tensor [2] [1, 1], Tensor [2] [5, 1], Tensor [2] [0, 0], Tensor [2] [4, 0]]"

definition scenario_delta_refs :: "ref_weights list" where
  "scenario_delta_refs = [[(''w'', 3)], [(''w'', 4)]]"

section \<open>Helper lemmas\<close>

lemma foldl_add_int: "foldl (+) (a::int) xs = a + sum_list xs"
  by (induction xs arbitrary: a) simp_all

lemma foldl_add_real: "foldl (+) (a::real) xs = a + sum_list xs"
  by (induction xs arbitrary: a) simp_all

lemma py_sum_int_eq: "py_sum_int xs = sum_list xs"
  by (simp add: py_sum_int_def foldl_add_int)

lemma py_sum_eq: "py_sum xs = sum_list xs"
  by (simp add: py_sum_def foldl_add_real)

lemma try_map_Inr:
  assumes "\<And>x. x \<in> set xs \<Longrightarrow> f x = Inr (g x)"
  shows "try_map f xs = Inr (map g xs)"
  using assms by (induction xs) simp_all

lemma sample_weights_value:
  assumes "total_samples_of upds \<noteq> 0"
  shows "sample_weights upds =
         Inr (map (\<lambda>u. real_of_int (num_samples (report u)) / real_of_int (total_samples_of upds))
                  upds)"
  unfolding sample_weights_def
  by (rule try_map_Inr) (simp add: truediv_def assms)

lemma enumerate_nth_sum:
  "length ws = length xs \<Longrightarrow>
   map (\<lambda>(idx, a). f a (ws ! idx)) (enumerate 0 xs) = map (\<lambda>(a, w). f a w) (zip xs ws)"
  by (rule nth_equalityI) (simp_all add: nth_enumerate_eq)

lemma sum_list_divide_const:
  "sum_list (map (\<lambda>x. f x / (c::real)) xs) = sum_list (map f xs) / c"
  by (induction xs) (simp_all add: add_divide_distrib)

lemma total_samples_of_eq:
  "total_samples_of upds = sum_list (map (\<lambda>u. num_samples (report u)) upds)"
  by (simp add: total_samples_of_def py_sum_int_eq)

lemma sum_list_pos_nonempty:
  fixes f :: "'a \<Rightarrow> int"
  shows "us \<noteq> [] \<Longrightarrow> \<forall>u\<in>set us. 0 < f u \<Longrightarrow> 0 < sum_list (map f us)"
proof (induction us)
  case Nil
  then show ?case by simp
next
  case (Cons u us)
  have "0 \<le> sum_list (map f us)"
    using Cons.prems(2) by (intro sum_list_nonneg) auto
  moreover have "0 < f u" using Cons.prems(2) by simp
  ultimately show ?case by simp
qed

lemma total_samples_pos:
  assumes "upds \<noteq> []" and "\<forall>u\<in>set upds. 0 < num_samples (report u)"
  shows "0 < total_samples_of upds"
  using sum_list_pos_nonempty [OF assms] by (simp add: total_samples_of_eq)

lemma sqrt_hundredth: "sqrt (1 / 100) = 1 / 10"
  by (rule real_sqrt_unique) (simp_all add: power2_eq_square)

section \<open>Metrics aggregator\<close>

text \<open>
  Claim C9. For every non-empty batch of reports whose sample counts are all positive,
  the list of aggregation weights \<open>num_samples\<^sub>i / total_samples\<close> that the code builds
  is computed without an exception and sums to exactly 1.
\<close>

theorem sample_weights_sum_to_one:
  assumes "upds \<noteq> []" and "\<forall>u\<in>set upds. 0 < num_samples (report u)"
  shows "\<exists>ws. sample_weights upds = Inr ws
           \<and> ws = map (\<lambda>u. real_of_int (num_samples (report u))
                              / real_of_int (total_samples_of upds)) upds
           \<and> sum_list ws = 1"
proof -
  let ?N = "total_samples_of upds"
  have pos: "0 < ?N" using assms by (rule total_samples_pos)
  have "sum_list (map (\<lambda>u. real_of_int (num_samples (report u)) / real_of_int ?N) upds)
        = real_of_int (sum_list (map (\<lambda>u. num_samples (report u)) upds)) / real_of_int ?N"
    by (simp add: sum_list_divide_const sum_list_of_int [symmetric] comp_def)
  also have "\<dots> = 1" using pos by (simp add: total_samples_of_eq)
  finally show ?thesis using pos by (simp add: sample_weights_value)
qed

theorem sample_weights_sum_to_one_witness:
  "sample_weights two_updates = Inr [1 / 4, 3 / 4] \<and> sum_list [1 / 4, 3 / 4 :: real] = 1"
  using sample_weights_sum_to_one [of two_updates]
  by (simp add: two_updates_def total_samples_of_def py_sum_int_def)


text \<open>
  Claim C6. For every non-empty batch with positive total samples (and no negative
  sample count), \<^verbatim>\<open>get_accuracy_mean_std\<close> returns the sample-weighted mean of the
  accuracies and the square root of the sample-weighted variance around that mean.
  The batch with sample counts (2, 2) and accuracies (0.8, 0.6) gives mean 0.7 and
  standard deviation 0.1.
\<close>

theorem accuracy_mean_std_formula:
  assumes "upds \<noteq> []" and "0 < total_samples_of upds"
    and "\<forall>u\<in>set upds. 0 \<le> num_samples (report u)"
  shows "\<exists>mean std. get_accuracy_mean_std upds = Inr (mean, std)
     \<and> mean = (\<Sum>u\<leftarrow>upds. accuracy (report u)
                 * (real_of_int (num_samples (report u)) / real_of_int (total_samples_of upds)))
     \<and> std = sqrt (\<Sum>u\<leftarrow>upds. (accuracy (report u) - mean)\<^sup>2
                 * (real_of_int (num_samples (report u)) / real_of_int (total_samples_of upds)))"
proof -
  let ?N = "real_of_int (total_samples_of upds)"
  let ?w = "\<lambda>u. real_of_int (num_samples (report u)) / ?N"
  let ?ws = "map ?w upds"
  let ?accs = "map (\<lambda>u. accuracy (report u)) upds"
  have sw: "sample_weights upds = Inr ?ws"
    using assms(2) by (simp add: sample_weights_value)
  have zipmap: "\<And>f. map (\<lambda>(a, w). f a w) (zip ?accs ?ws)
                   = map (\<lambda>u. f (accuracy (report u)) (?w u)) upds"
    by (simp add: zip_map_map zip_same_conv_map comp_def)
  define mean where "mean = (\<Sum>u\<leftarrow>upds. accuracy (report u) * ?w u)"
  define var where "var = (\<Sum>u\<leftarrow>upds. (accuracy (report u) - mean)\<^sup>2 * ?w u)"
  have m: "py_sum (map (\<lambda>(idx, acc). acc * ?ws ! idx) (enumerate 0 ?accs)) = mean"
    unfolding py_sum_eq mean_def
    by (subst enumerate_nth_sum [where f = "\<lambda>a w. a * w"]) (simp_all add: zipmap)
  have v: "py_sum (map (\<lambda>(idx, acc). (acc - mean)\<^sup>2 * ?ws ! idx) (enumerate 0 ?accs)) = var"
    unfolding py_sum_eq var_def
    by (subst enumerate_nth_sum [where f = "\<lambda>a w. (a - mean)\<^sup>2 * w"]) (simp_all add: zipmap)
  have "0 \<le> var"
    unfolding var_def using assms(2,3)
    by (intro sum_list_nonneg) (auto intro!: mult_nonneg_nonneg divide_nonneg_nonneg)
  then have s: "var powr (1 / 2) = sqrt var" by (rule powr_half_sqrt)
  have "get_accuracy_mean_std upds = Inr (mean, sqrt var)"
    unfolding get_accuracy_mean_std_def Let_def sw using m v s by simp
  then show ?thesis unfolding mean_def var_def by blast
qed

theorem accuracy_mean_std_formula_witness:
  "get_accuracy_mean_std accuracy_scenario = Inr (7 / 10, 1 / 10)"
proof -
  have t: "total_samples_of accuracy_scenario = 4"
    by (simp add: accuracy_scenario_def total_samples_of_def py_sum_int_def)
  have "accuracy_scenario \<noteq> []" "0 < total_samples_of accuracy_scenario"
       "\<forall>u\<in>set accuracy_scenario. 0 \<le> num_samples (report u)"
    by (simp_all add: t) (simp_all add: accuracy_scenario_def)
  from accuracy_mean_std_formula [OF this]
  show ?thesis
    by (simp add: t) (simp add: accuracy_scenario_def power2_eq_square sqrt_hundredth)
qed

section \<open>Convergence estimator\<close>

lemma math_log_value:
  assumes "0 < x" and "0 < b" and "b \<noteq> 1"
  shows "math_log x b = Inr (log b x)"
proof -
  have "ln b \<noteq> 0" using assms(2,3) by simp
  with assms show ?thesis by (simp add: math_log_def log_def)
qed

lemma estimate_t_result:
  "\<exists>t. estimate_t numerator denominator lam = Inr t
     \<and> (0 < numerator \<and> 0 < denominator \<and> 0 < lam \<and> lam \<noteq> 1
          \<longrightarrow> t = log lam (numerator / denominator))
     \<and> (\<not> (0 < numerator \<and> 0 < denominator \<and> 0 < lam \<and> lam \<noteq> 1) \<longrightarrow> t = - 1)"
proof (cases "0 < numerator \<and> 0 < denominator \<and> 0 < lam \<and> lam \<noteq> 1")
  case True
  then have "0 < numerator / denominator" by simp
  with True have "math_log (numerator / denominator) lam = Inr (log lam (numerator / denominator))"
    by (simp add: math_log_value)
  with True show ?thesis by (simp add: estimate_t_def float_div_def)
next
  case False
  then show ?thesis by (auto simp add: estimate_t_def)
qed

lemma stopping_time_total: "\<exists>t. stopping_time s_avg = Inr t"
proof (cases s_avg)
  case None
  then show ?thesis by (simp add: stopping_time_def)
next
  case (Some s)
  obtain a b c where "estimator_inputs s = (a, b, c)" by (cases "estimator_inputs s")
  with Some estimate_t_result [of a b c] show ?thesis
    by (auto simp add: stopping_time_def)
qed

text \<open>
  Claim C3. The guarded logarithm never raises: it returns \<open>log\<^sub>\<lambda> (numerator / denominator)\<close>
  when numerator, denominator and \<open>\<lambda>\<close> are positive and \<open>\<lambda> \<noteq> 1\<close>, and the sentinel
  \<open>-1\<close> in every other case; with the constants of the method, the stopping time of a
  round is always a value, whatever the average singular value (NaN included).
\<close>

theorem estimate_t_guarded:
  "(\<exists>t. estimate_t numerator denominator lam = Inr t
      \<and> (0 < numerator \<and> 0 < denominator \<and> 0 < lam \<and> lam \<noteq> 1
           \<longrightarrow> t = log lam (numerator / denominator))
      \<and> (\<not> (0 < numerator \<and> 0 < denominator \<and> 0 < lam \<and> lam \<noteq> 1) \<longrightarrow> t = - 1))
   \<and> (\<exists>t. stopping_time s_avg = Inr t)"
  using estimate_t_result [of numerator denominator lam] stopping_time_total [of s_avg]
  by blast

theorem estimate_t_guarded_witness:
  "estimate_t 4 2 2 = Inr 1 \<and> estimate_t 0 2 2 = Inr (- 1) \<and> estimate_t 4 2 1 = Inr (- 1)"
  using estimate_t_guarded [of 4 2 2] estimate_t_guarded [of 0 2 2] estimate_t_guarded [of 4 2 1]
  by auto

lemma collect_singular_values:
  "foldl (\<lambda>all_s p_arr. all_s @ svd_column p_arr) acc ps = acc @ concat (map svd_column ps)"
  by (induction ps arbitrary: acc) simp_all

lemma concat_svd_present:
  "concat (map svd_column ps) = map (\<lambda>p. sqrt (\<Sum>x\<leftarrow>p. x\<^sup>2)) (filter (\<lambda>p. p \<noteq> []) ps)"
  by (induction ps) (simp_all add: svd_column_def)

lemma s_average_present:
  "s_average w =
     (let present = filter (\<lambda>(name, param). entries param \<noteq> []) w
      in if present = [] then None else Some (mean_of_parameter_norms present))"
proof -
  let ?ps = "map (\<lambda>(name, param). flatten param) w"
  let ?present = "filter (\<lambda>(name, param). entries param \<noteq> []) w"
  have f: "filter (\<lambda>p. p \<noteq> []) ?ps = map (\<lambda>(name, param). flatten param) ?present"
    by (simp add: filter_map comp_def case_prod_unfold flatten_def)
  have "foldl (\<lambda>all_s p_arr. all_s @ svd_column p_arr) [] ?ps
        = map (\<lambda>p. sqrt (\<Sum>x\<leftarrow>p. x\<^sup>2)) (filter (\<lambda>p. p \<noteq> []) ?ps)"
    by (simp only: collect_singular_values concat_svd_present append_Nil)
  also have "\<dots> = map (\<lambda>(name, param). sqrt (\<Sum>x\<leftarrow>entries param. x\<^sup>2)) ?present"
    by (simp only: f) (simp add: flatten_def comp_def case_prod_unfold)
  finally have vals: "foldl (\<lambda>all_s p_arr. all_s @ svd_column p_arr) [] ?ps
        = map (\<lambda>(name, param). sqrt (\<Sum>x\<leftarrow>entries param. x\<^sup>2)) ?present" .
  show ?thesis
    by (simp add: s_average_def np_mean_def vals mean_of_parameter_norms_def Let_def)
qed

lemma sqrt_25: "sqrt 25 = 5"
  by (rule real_sqrt_unique) simp_all

text \<open>
  Claim C10, as amended. The global drift magnitude \<open>delta_g\<close> is the arithmetic mean of
  the collected singular values, and a parameter contributes one, its Euclidean norm,
  only if it has at least one entry: \<open>delta_g\<close> is the mean of the norms over the
  parameters that have entries, and NaN when there is none. For a store with at least one
  parameter, all of whose parameters have entries, it is the mean of the norms over the
  parameters.
\<close>

theorem s_average_collected_values:
  "s_average w =
     (let present = filter (\<lambda>(name, param). entries param \<noteq> []) w
      in if present = [] then None else Some (mean_of_parameter_norms present))
   \<and> (w \<noteq> [] \<and> list_all (\<lambda>(name, param). entries param \<noteq> []) w
        \<longrightarrow> s_average w = Some (mean_of_parameter_norms w))"
proof -
  have "filter (\<lambda>(name, param). entries param \<noteq> []) w = w"
    if "list_all (\<lambda>(name, param). entries param \<noteq> []) w"
    using that by (simp add: list_all_iff)
  then show ?thesis
    using s_average_present [of w] by (auto simp add: Let_def)
qed

theorem s_average_collected_values_witness:
  "s_average dense_store = Some 3 \<and> mean_of_parameter_norms dense_store = 3"
  using s_average_collected_values [of dense_store]
  by (simp add: dense_store_def mean_of_parameter_norms_def sqrt_25)

text \<open>
  The claim as first stated has the mean taken over all parameters. In a store with the
  parameters \<open>a\<close>, without entries, and \<open>b = [3, 4]\<close>, one singular value is
  collected and \<open>delta_g\<close> is 5, while the mean of the two norms is 5/2.
\<close>

theorem s_average_counterexample:
  "s_average sparse_store = Some 5 \<and> mean_of_parameter_norms sparse_store = 5 / 2"
  by (simp add: s_average_present sparse_store_def mean_of_parameter_norms_def sqrt_25)

section \<open>The stop test of \<^verbatim>\<open>_process_reports\<close>\<close>

lemma log_ge_one_small_base:
  assumes "0 < b" and "b < 1" and "0 < x" and "x \<le> b"
  shows "1 \<le> log b x"
proof -
  have neg: "ln b < 0" using assms(1,2) by simp
  have "ln x \<le> ln b" using assms(1,3,4) by simp
  then have "1 \<le> ln x / ln b" using neg by (simp add: neg_le_divide_eq)
  then show ?thesis by (simp add: log_def)
qed

lemma stop_check_iff:
  assumes "0 \<le> r"
  shows "stop_check t r = Inl StopIteration \<longleftrightarrow> 0 \<le> t \<and> real_of_int r \<le> t"
  using assms by (auto simp add: stop_check_def)

lemma stop_check_cases:
  "stop_check t r = (if real_of_int r \<le> t then Inl StopIteration else Inr ())"
  by (simp add: stop_check_def)

lemma aggregate_step_one_client:
  "aggregate_step delta_env (round_one_server v)
   = (Inr [(''w'', Tensor [1] [v])], (round_one_server v)\<lparr>total_samples := 1\<rparr>)"
  by (simp add: aggregate_step_def delta_env_def round_one_server_def one_client_def
      spec_compute_weight_deltas_def subtract_weights_def tensor_sub_def
      aggregate_deltas_def total_samples_of_def py_sum_int_def zeros_def
      truediv_def tensor_add_def tensor_scale_def spec_update_weights_def Let_def)

lemma s_average_one: "s_average [(name, Tensor sh [v])] = Some \<bar>v\<bar>"
  by (simp add: s_average_def flatten_def svd_column_def np_mean_def)

lemma estimator_inputs_value:
  "estimator_inputs s = (s - 72 / 550, 59, 1967 / 2000)"
  by (simp add: estimator_inputs_def Let_def)

lemma stopping_time_norm_one: "\<exists>t. stopping_time (Some 1) = Inr t \<and> 1 \<le> t"
proof -
  have "1 \<le> log (1967 / 2000) ((1 - 72 / 550) / 59)"
    by (rule log_ge_one_small_base) simp_all
  then show ?thesis
    by (simp add: stopping_time_def estimator_inputs_value estimate_t_def float_div_def
        math_log_value)
qed

lemma stopping_time_zero: "stopping_time (Some 0) = Inr (- 1)"
  by (simp add: stopping_time_def estimator_inputs_value estimate_t_def)

lemma stop_test_outcome:
  assumes "aggregate_step env srv = (Inr w, srv1)"
    and "stopping_time (s_average w) = Inr t"
    and "0 \<le> current_round srv1"
  shows "(stop_check t (current_round srv1) = Inl StopIteration
            \<longleftrightarrow> 0 \<le> t \<and> real_of_int (current_round srv1) \<le> t)
       \<and> (0 \<le> t \<and> real_of_int (current_round srv1) \<le> t
            \<longrightarrow> process_reports_body env srv = (Inl StopIteration, srv1\<lparr>model_weights := w\<rparr>)
              \<and> process_reports env srv = (Inl RuntimeError, srv1\<lparr>model_weights := w\<rparr>))
       \<and> (\<not> (0 \<le> t \<and> real_of_int (current_round srv1) \<le> t)
            \<longrightarrow> process_reports env srv
                  = coroutine_result (accuracy_step env (srv1\<lparr>model_weights := w\<rparr>)))"
proof -
  have r: "0 \<le> real_of_int (current_round srv1)" using assms(3) by simp
  have p: "process_reports_body env srv =
        (if real_of_int (current_round srv1) \<le> t then (Inl StopIteration, srv1\<lparr>model_weights := w\<rparr>)
         else accuracy_step env (srv1\<lparr>model_weights := w\<rparr>))"
    by (simp add: process_reports_body_def assms(1,2) Let_def stop_check_cases)
  show ?thesis
    using r by (auto simp add: p process_reports_def coroutine_result_def stop_check_iff [OF assms(3)])
qed

lemma quiet_round_completes:
  "process_reports delta_env (round_one_server 0)
     = (Inr (), (round_one_server 0)\<lparr>total_samples := 1, server_accuracy := 9 / 10\<rparr>)"
proof -
  have a: "aggregate_step delta_env (round_one_server 0)
        = (Inr [(''w'', Tensor [1] [0])], (round_one_server 0)\<lparr>total_samples := 1\<rparr>)"
    by (rule aggregate_step_one_client)
  have s: "stopping_time (s_average [(''w'', Tensor [1] [0])]) = Inr (- 1)"
    by (simp add: s_average_one stopping_time_zero)
  have c: "0 \<le> current_round ((round_one_server 0)\<lparr>total_samples := 1\<rparr>)"
    by (simp add: round_one_server_def)
  from stop_test_outcome [OF a s c]
  show ?thesis
    by (simp add: accuracy_step_def delta_env_def coroutine_result_def
        get_accuracy_mean_std_def sample_weights_def total_samples_of_def
        py_sum_int_def py_sum_def truediv_def round_one_server_def one_client_def Let_def enumerate_eq_zip)
qed

text \<open>
  Claim C2, at a failing input. The stop test fires exactly when the stopping time is
  non-negative and has reached the round number, and the sentinel never fires it
  (\<open>stop_test_outcome\<close>). But the stop is not a normal termination at the round
  boundary. In round 1 of a one-client deployment whose model has norm 1 the estimate is
  above 1: the body raises \<open>StopIteration\<close>, the awaiting caller receives
  \<open>RuntimeError\<close>, the aggregated weights are loaded, and the accuracy 0.9 that the
  client reported is never recorded.
\<close>

theorem stop_signal_is_runtime_error:
  "process_reports delta_env (round_one_server 1)
     = (Inl RuntimeError, (round_one_server 1)\<lparr>total_samples := 1\<rparr>)
   \<and> fst (process_reports_body delta_env (round_one_server 1)) = Inl StopIteration
   \<and> server_accuracy (snd (process_reports delta_env (round_one_server 1))) = 0
   \<and> get_accuracy_mean_std (updates (round_one_server 1)) = Inr (9 / 10, 0)"
proof -
  obtain t where t: "stopping_time (Some 1) = Inr t" "1 \<le> t"
    using stopping_time_norm_one by blast
  have b: "process_reports_body delta_env (round_one_server 1)
        = (Inl StopIteration, (round_one_server 1)\<lparr>total_samples := 1\<rparr>)"
    using t by (simp add: process_reports_body_def aggregate_step_one_client s_average_one
        stop_check_def Let_def) (simp add: round_one_server_def)
  then have p: "process_reports delta_env (round_one_server 1)
        = (Inl RuntimeError, (round_one_server 1)\<lparr>total_samples := 1\<rparr>)"
    by (simp add: process_reports_def coroutine_result_def)
  have "get_accuracy_mean_std (updates (round_one_server 1)) = Inr (9 / 10, 0)"
    by (simp add: get_accuracy_mean_std_def sample_weights_def total_samples_of_def
        py_sum_int_def py_sum_def truediv_def round_one_server_def one_client_def Let_def enumerate_eq_zip)
  with b p show ?thesis by (simp add: round_one_server_def)
qed

section \<open>Aggregation of deltas\<close>

lemma shape_tadd [simp]: "shape (tadd a b) = shape a"
  by (simp add: tadd_def)

lemma shape_tensor_scale [simp]: "shape (tensor_scale t c) = shape t"
  by (simp add: tensor_scale_def)

lemma shape_zeros [simp]: "shape (zeros sh) = sh"
  by (simp add: zeros_def)

lemma tensor_add_same_shape: "shape a = shape b \<Longrightarrow> tensor_add a b = Inr (tadd a b)"
  by (simp add: tensor_add_def tadd_def)

lemma map_of_map_keyed:
  "map_of (map (\<lambda>(k, c). (k, g k c)) al) k = map_option (g k) (map_of al k)"
  by (induction al) auto

lemma map_fst_map_keyed: "map fst (map (\<lambda>(k, c). (k, g k c)) al) = map fst al"
  by (induction al) auto

lemma update_as_map:
  assumes "distinct (map fst al)" and "map_of al k = Some cur"
  shows "AList.update k (f cur) al = map (\<lambda>(k', c). (k', if k' = k then f c else c)) al"
  using assms
proof (induction al)
  case Nil
  then show ?case by simp
next
  case (Cons p al)
  obtain k0 c0 where p: "p = (k0, c0)" by (cases p)
  show ?case
  proof (cases "k0 = k")
    case True
    with Cons.prems p have c: "c0 = cur" and notin: "k \<notin> fst ` set al" by auto
    have "map (\<lambda>(k', c). (k', if k' = k then f c else c)) al = al"
      using notin by (intro map_idI) (auto simp add: rev_image_eqI)
    with True p c show ?thesis by simp
  next
    case False
    with Cons p show ?thesis by simp
  qed
qed

lemma conforms_map_keyed:
  assumes "conforms avg d" and "\<And>k c. shape (g k c) = shape c"
  shows "conforms (map (\<lambda>(k, c). (k, g k c)) avg) d"
  using assms
  by (auto simp add: conforms_def list_all_iff map_of_map_keyed split: option.splits)

lemma conforms_Cons:
  "conforms avg ((name, t) # d) \<longleftrightarrow>
     (\<exists>cur. map_of avg name = Some cur \<and> shape cur = shape t) \<and> conforms avg d"
  by (auto simp add: conforms_def split: option.splits)

lemma accumulate_delta_value:
  assumes "distinct (map fst items)" and "distinct (map fst avg)" and "tot \<noteq> 0"
    and "conforms avg items"
  shows "accumulate_delta avg items n tot =
         Inr (map (\<lambda>(name, cur).
                (name, case map_of items name of
                         None \<Rightarrow> cur
                       | Some t \<Rightarrow> tadd cur (tensor_scale t (real_of_int n / real_of_int tot))))
              avg)"
  using assms
proof (induction items arbitrary: avg)
  case Nil
  then show ?case by (simp add: case_prod_unfold)
next
  case (Cons p items)
  obtain name t where p: "p = (name, t)" by (cases p)
  let ?w = "real_of_int n / real_of_int tot"
  from Cons.prems(4) p obtain cur where cur: "map_of avg name = Some cur" "shape cur = shape t"
    and rest: "conforms avg items"
    by (auto simp add: conforms_Cons)
  let ?avg1 = "map (\<lambda>(k, c). (k, if k = name then tadd c (tensor_scale t ?w) else c)) avg"
  have upd: "AList.update name (tadd cur (tensor_scale t ?w)) avg = ?avg1"
    using update_as_map [OF Cons.prems(2) cur(1), of "\<lambda>c. tadd c (tensor_scale t ?w)"] .
  have step: "accumulate_delta avg (p # items) n tot = accumulate_delta ?avg1 items n tot"
    using cur Cons.prems(3) upd
    by (simp add: p truediv_def tensor_add_same_shape)
  have d1: "distinct (map fst items)" using Cons.prems(1) by simp
  have d2: "distinct (map fst ?avg1)" using Cons.prems(2) by (simp only: map_fst_map_keyed)
  have c1: "conforms ?avg1 items"
    by (rule conforms_map_keyed [OF rest]) simp
  have notin: "map_of items name = None"
    using Cons.prems(1) p by (simp add: map_of_eq_None_iff)
  have "accumulate_delta ?avg1 items n tot =
        Inr (map (\<lambda>(name, cur).
                (name, case map_of items name of
                         None \<Rightarrow> cur
                       | Some t \<Rightarrow> tadd cur (tensor_scale t ?w))) ?avg1)"
    by (rule Cons.IH [OF d1 d2 Cons.prems(3) c1])
  also have "map (\<lambda>(name, cur).
                (name, case map_of items name of
                         None \<Rightarrow> cur
                       | Some t \<Rightarrow> tadd cur (tensor_scale t ?w))) ?avg1
           = map (\<lambda>(name, cur).
                (name, case map_of (p # items) name of
                         None \<Rightarrow> cur
                       | Some t \<Rightarrow> tadd cur (tensor_scale t ?w))) avg"
    using notin by (auto simp add: p)
  finally show ?case using step by simp
qed

lemma shape_contribution [simp]: "shape (contribution tot name cur ud) = shape cur"
  by (simp add: contribution_def split: option.splits)

lemma contribution_pair:
  "contribution tot name cur (u, d) =
     (case map_of d name of
        None \<Rightarrow> cur
      | Some t \<Rightarrow> tadd cur (tensor_scale t
                   (real_of_int (num_samples (report u)) / real_of_int tot)))"
  by (simp add: contribution_def split: option.splits)

lemma aggregate_loop_value:
  assumes "distinct (map fst avg)" and "tot \<noteq> 0" and "i + length ds \<le> length upds"
    and "list_all (\<lambda>d. distinct (map fst d) \<and> conforms avg d) ds"
  shows "aggregate_loop avg upds tot i ds =
         Inr (map (\<lambda>(name, cur).
                (name, foldl (contribution tot name) cur (zip (drop i upds) ds))) avg)"
  using assms
proof (induction ds arbitrary: avg i)
  case Nil
  then show ?case by (simp add: case_prod_unfold)
next
  case (Cons d ds)
  have i: "i < length upds" using Cons.prems(3) by simp
  have dd: "distinct (map fst d)" and cd: "conforms avg d"
    using Cons.prems(4) by simp_all
  let ?avg1 = "map (\<lambda>(name, cur). (name, contribution tot name cur (upds ! i, d))) avg"
  have inner: "accumulate_delta avg d (num_samples (report (upds ! i))) tot = Inr ?avg1"
    using accumulate_delta_value [OF dd Cons.prems(1,2) cd]
    by (simp add: contribution_pair)
  have d1: "distinct (map fst ?avg1)"
    using Cons.prems(1) by (simp only: map_fst_map_keyed)
  have l1: "list_all (\<lambda>d. distinct (map fst d) \<and> conforms ?avg1 d) ds"
    using Cons.prems(4) by (auto simp add: list_all_iff intro: conforms_map_keyed)
  have "aggregate_loop avg upds tot i (d # ds) = aggregate_loop ?avg1 upds tot (Suc i) ds"
    using i inner by simp
  also have "\<dots> = Inr (map (\<lambda>(name, cur).
                (name, foldl (contribution tot name) cur (zip (drop (Suc i) upds) ds))) ?avg1)"
    using Cons.prems(3) by (intro Cons.IH [OF d1 Cons.prems(2) _ l1]) simp
  also have "map (\<lambda>(name, cur).
                (name, foldl (contribution tot name) cur (zip (drop (Suc i) upds) ds))) ?avg1
      = map (\<lambda>(name, cur).
                (name, foldl (contribution tot name) cur (zip (drop i upds) (d # ds)))) avg"
    using i by (simp add: Cons_nth_drop_Suc [symmetric] case_prod_unfold)
  finally show ?case .
qed

lemma shape_foldl_contribution [simp]:
  "shape (foldl (contribution tot name) cur uds) = shape cur"
  by (induction uds arbitrary: cur) simp_all

lemma schema_map_keyed:
  assumes "\<And>k c. shape (g k c) = shape c"
  shows "schema (map (\<lambda>(k, c). (k, g k c)) al) = schema al"
  by (simp add: schema_def image_image case_prod_unfold assms)

lemma schema_keys: "fst ` schema d = fst ` set d"
  by (force simp add: schema_def image_iff)

lemma valid_batch_hd:
  assumes "valid_batch baseline upds deltas"
  shows "hd deltas \<in> set deltas" and "distinct (map fst (hd deltas))"
    and "schema (hd deltas) = schema baseline"
  using assms by (auto simp add: valid_batch_def list_all_iff)

lemma valid_batch_conforms:
  assumes "valid_batch baseline upds deltas" and "d \<in> set deltas"
  shows "conforms (map (\<lambda>(name, delta). (name, zeros (shape delta))) (hd deltas)) d"
proof -
  let ?first = "hd deltas"
  have sd: "schema d = schema ?first"
    using assms valid_batch_hd(3) [OF assms(1)] by (simp add: valid_batch_def list_all_iff)
  have df: "distinct (map fst ?first)" by (rule valid_batch_hd(2) [OF assms(1)])
  have "\<exists>cur. map_of (map (\<lambda>(name, delta). (name, zeros (shape delta))) ?first) name = Some cur
              \<and> shape cur = shape t"
    if "(name, t) \<in> set d" for name t
  proof -
    from that have "(name, shape t) \<in> schema d" by (force simp add: schema_def)
    with sd obtain t0 where t0: "(name, t0) \<in> set ?first" "shape t0 = shape t"
      by (auto simp add: schema_def)
    from df t0(1) have "map_of ?first name = Some t0" by (rule map_of_is_SomeI)
    with t0(2) show ?thesis by (simp add: map_of_map_keyed)
  qed
  then show ?thesis
    by (fastforce simp add: conforms_def list_all_iff split: option.splits)
qed

lemma aggregate_deltas_valid:
  assumes "valid_batch baseline upds deltas"
  shows "fst (aggregate_deltas srv upds deltas) =
         Inr (map (\<lambda>(name, t0).
                (name, foldl (contribution (total_samples_of upds) name) (zeros (shape t0))
                         (zip upds deltas)))
              (hd deltas))"
proof -
  let ?N = "total_samples_of upds"
  let ?avg0 = "map (\<lambda>(name, delta). (name, zeros (shape delta))) (hd deltas)"
  from assms obtain first rest where fr: "deltas = first # rest"
    by (cases deltas) (simp_all add: valid_batch_def)
  have d0: "distinct (map fst ?avg0)"
    using valid_batch_hd(2) [OF assms] by (simp only: map_fst_map_keyed)
  have n0: "?N \<noteq> 0" and len: "0 + length deltas \<le> length upds"
    using assms by (simp_all add: valid_batch_def)
  have la: "list_all (\<lambda>d. distinct (map fst d) \<and> conforms ?avg0 d) deltas"
    using assms valid_batch_conforms [OF assms]
    by (simp add: valid_batch_def list_all_iff)
  have "fst (aggregate_deltas srv upds deltas) = aggregate_loop ?avg0 upds ?N 0 deltas"
    by (simp add: aggregate_deltas_def Let_def fr del: aggregate_loop.simps)
  also have "\<dots> =
        Inr (map (\<lambda>(name, cur). (name, foldl (contribution ?N name) cur (zip (drop 0 upds) deltas)))
               ?avg0)"
    by (rule aggregate_loop_value [OF d0 n0 len la])
  also have "map (\<lambda>(name, cur). (name, foldl (contribution ?N name) cur (zip (drop 0 upds) deltas)))
               ?avg0
       = map (\<lambda>(name, t0). (name, foldl (contribution ?N name) (zeros (shape t0)) (zip upds deltas)))
           (hd deltas)"
    by (simp add: case_prod_unfold)
  finally show ?thesis .
qed

lemma scenario_valid: "valid_batch scenario_baseline two_updates scenario_deltas"
  by (simp add: valid_batch_def scenario_baseline_def two_updates_def scenario_deltas_def
      total_samples_of_def py_sum_int_def schema_def)

lemma scenario_avg_delta:
  "fst (aggregate_deltas srv two_updates scenario_deltas) = Inr [(''w'', Tensor [2] [3, 0])]"
  by (simp add: aggregate_deltas_def two_updates_def scenario_deltas_def
      total_samples_of_def py_sum_int_def zeros_def truediv_def tensor_add_def
      tensor_scale_def Let_def numeral_2_eq_2)

lemma accumulate_delta_keys:
  assumes "accumulate_delta avg items n tot = Inr avg'"
  shows "fst ` set avg' = fst ` set avg \<and> fst ` set items \<subseteq> fst ` set avg"
  using assms
proof (induction items arbitrary: avg)
  case Nil
  then show ?case by simp
next
  case (Cons p items)
  obtain name t where p: "p = (name, t)" by (cases p)
  from Cons.prems p obtain cur w new where
    cur: "map_of avg name = Some cur" and
    rec: "accumulate_delta (AList.update name new avg) items n tot = Inr avg'"
    by (auto split: option.splits sum.splits)
  from cur have mem: "name \<in> fst ` set avg" by (metis map_of_eq_None_iff option.distinct(1))
  then have keys: "fst ` set (AList.update name new avg) = fst ` set avg"
    using update_keys [of name new avg] by (metis (full_types) list.set_map)
  from Cons.IH [OF rec] keys mem p show ?case by simp
qed

lemma aggregate_loop_keys:
  assumes "aggregate_loop avg upds tot i ds = Inr avg'"
  shows "fst ` set avg' = fst ` set avg \<and> (\<forall>d\<in>set ds. fst ` set d \<subseteq> fst ` set avg)"
  using assms
proof (induction ds arbitrary: avg i)
  case Nil
  then show ?case by simp
next
  case (Cons d ds)
  from Cons.prems obtain avg1 where
    inner: "accumulate_delta avg d (num_samples (report (upds ! i))) tot = Inr avg1" and
    rec: "aggregate_loop avg1 upds tot (Suc i) ds = Inr avg'"
    by (auto split: if_splits sum.splits)
  from accumulate_delta_keys [OF inner] Cons.IH [OF rec] show ?case by simp
qed

text \<open>
  Claim C7. For every valid batch (each delta a well-formed dictionary with the
  name/shape schema of the baseline, one delta per report, a non-zero sample total),
  \<^verbatim>\<open>aggregate_deltas\<close> returns an aggregated store whose name/shape schema is that of
  the baseline: the same names, each once, with the same shapes.
\<close>

theorem aggregate_deltas_schema:
  assumes "valid_batch baseline upds deltas"
  shows "\<exists>avg. fst (aggregate_deltas srv upds deltas) = Inr avg
           \<and> schema avg = schema baseline
           \<and> fst ` set avg = fst ` set baseline
           \<and> distinct (map fst avg)"
proof -
  let ?avg = "map (\<lambda>(name, t0).
                (name, foldl (contribution (total_samples_of upds) name) (zeros (shape t0))
                         (zip upds deltas)))
              (hd deltas)"
  have r: "fst (aggregate_deltas srv upds deltas) = Inr ?avg"
    by (rule aggregate_deltas_valid [OF assms])
  have "schema ?avg = schema (hd deltas)"
    by (rule schema_map_keyed) simp
  then have s: "schema ?avg = schema baseline"
    using valid_batch_hd(3) [OF assms] by simp
  have k: "fst ` set ?avg = fst ` set baseline"
    using s schema_keys [of ?avg] schema_keys [of baseline] by simp
  have d: "distinct (map fst ?avg)"
    using valid_batch_hd(2) [OF assms] by (simp only: map_fst_map_keyed)
  from r s k d show ?thesis by blast
qed

theorem aggregate_deltas_schema_witness:
  "valid_batch scenario_baseline two_updates scenario_deltas
   \<and> fst (aggregate_deltas scenario_server two_updates scenario_deltas)
       = Inr [(''w'', Tensor [2] [3, 0])]
   \<and> schema [(''w'', Tensor [2] [3, 0])] = schema scenario_baseline"
  using aggregate_deltas_schema [OF scenario_valid, of scenario_server]
  by (simp add: scenario_valid scenario_avg_delta)

text \<open>
  Claim C5, as amended. There is no rejection step. A batch in which some delta carries
  a parameter name that the first delta lacks makes the whole aggregation fail with an
  exception; the report is not set aside and nothing is renormalised over the others.
\<close>

theorem stray_name_aborts:
  assumes "d \<in> set deltas" and "name \<in> fst ` set d" and "name \<notin> fst ` set (hd deltas)"
  shows "\<exists>e. fst (aggregate_deltas srv upds deltas) = Inl e"
proof (rule ccontr)
  assume "\<not> ?thesis"
  then obtain avg where ok: "fst (aggregate_deltas srv upds deltas) = Inr avg"
    by (cases "fst (aggregate_deltas srv upds deltas)") auto
  from assms(1) obtain first rest where fr: "deltas = first # rest" by (cases deltas) auto
  let ?avg0 = "map (\<lambda>(name, delta). (name, zeros (shape delta))) first"
  from ok fr have "aggregate_loop ?avg0 upds (total_samples_of upds) 0 deltas = Inr avg"
    by (simp add: aggregate_deltas_def Let_def del: aggregate_loop.simps)
  from aggregate_loop_keys [OF this] assms(1) have "fst ` set d \<subseteq> fst ` set ?avg0" by blast
  moreover have "fst ` set ?avg0 = fst ` set first" by (force simp add: image_iff)
  ultimately show False using assms(2,3) fr by auto
qed

theorem stray_name_aborts_witness:
  "fst (aggregate_deltas scenario_server (two_updates @ [stray_update])
          (scenario_deltas @ [stray_delta])) = Inl KeyError"
proof -
  have "stray_delta \<in> set (scenario_deltas @ [stray_delta])" by simp
  moreover have "''extra'' \<in> fst ` set stray_delta" by (simp add: stray_delta_def)
  moreover have "''extra'' \<notin> fst ` set (hd (scenario_deltas @ [stray_delta]))"
    by (simp add: scenario_deltas_def)
  ultimately have "\<exists>e. fst (aggregate_deltas scenario_server (two_updates @ [stray_update])
          (scenario_deltas @ [stray_delta])) = Inl e"
    by (rule stray_name_aborts)
  then show ?thesis
    by (simp add: aggregate_deltas_def two_updates_def scenario_deltas_def stray_update_def
      stray_delta_def total_samples_of_def py_sum_int_def zeros_def truediv_def tensor_add_def
      tensor_scale_def Let_def numeral_2_eq_2)
qed

text \<open>
  The claim as first stated has the stray report excluded and the result equal to that
  of the batch without it. With the third report of the scenario the aggregation raises
  \<open>KeyError\<close>, while the batch of the first two reports aggregates to \<open>w = [3, 0]\<close>.
\<close>

theorem no_rejection_counterexample:
  "fst (aggregate_deltas scenario_server (two_updates @ [stray_update])
          (scenario_deltas @ [stray_delta])) = Inl KeyError
   \<and> fst (aggregate_deltas scenario_server two_updates scenario_deltas)
       = Inr [(''w'', Tensor [2] [3, 0])]"
  by (simp add: scenario_avg_delta)
     (simp add: aggregate_deltas_def two_updates_def scenario_deltas_def stray_update_def
      stray_delta_def total_samples_of_def py_sum_int_def zeros_def truediv_def tensor_add_def
      tensor_scale_def Let_def numeral_2_eq_2)


section \<open>Failing batches\<close>

lemma aggregate_deltas_no_updates:
  "fst (aggregate_deltas srv [] deltas) = Inl IndexError"
  by (cases deltas) (simp_all add: aggregate_deltas_def Let_def)

lemma aggregate_deltas_zero_total:
  assumes "upds \<noteq> []" and "total_samples_of upds = 0" and "deltas \<noteq> []" and "hd deltas \<noteq> []"
  shows "fst (aggregate_deltas srv upds deltas) = Inl ZeroDivisionError"
proof -
  from assms(3) obtain first rest where fr: "deltas = first # rest" by (cases deltas) auto
  with assms(4) obtain name t items where f: "first = (name, t) # items"
    by (cases first) auto
  show ?thesis
    using assms(1,2) by (simp add: aggregate_deltas_def Let_def fr f truediv_def)
qed

lemma aggregate_deltas_server:
  "snd (aggregate_deltas srv upds deltas) = srv\<lparr>total_samples := total_samples_of upds\<rparr>"
  by (simp add: aggregate_deltas_def Let_def split: list.splits)

lemma accumulate_delta_not_stop: "accumulate_delta avg items n tot \<noteq> Inl StopIteration"
  by (induction avg items n tot rule: accumulate_delta.induct)
     (auto simp add: truediv_def tensor_add_def split: option.splits sum.splits if_splits)

lemma aggregate_loop_not_stop: "aggregate_loop avg upds tot i ds \<noteq> Inl StopIteration"
  by (induction avg upds tot i ds rule: aggregate_loop.induct)
     (auto simp add: accumulate_delta_not_stop split: sum.splits)

lemma aggregate_deltas_not_stop: "fst (aggregate_deltas srv upds ds) \<noteq> Inl StopIteration"
  by (cases ds) (simp_all add: aggregate_deltas_def Let_def aggregate_loop_not_stop
      del: aggregate_loop.simps)

lemma process_reports_aggregation_failure:
  assumes "aggregate_weights env = None"
    and "compute_weight_deltas env (model_weights srv) (map payload (updates srv)) = Inr ds"
    and "fst (aggregate_deltas srv (updates srv) ds) = Inl e"
  shows "process_reports env srv = (Inl e, srv\<lparr>total_samples := total_samples_of (updates srv)\<rparr>)"
proof -
  have "aggregate_deltas srv (updates srv) ds
        = (Inl e, srv\<lparr>total_samples := total_samples_of (updates srv)\<rparr>)"
    using assms(3) aggregate_deltas_server [of srv "updates srv" ds]
    by (cases "aggregate_deltas srv (updates srv) ds") simp
  then have "process_reports_body env srv
        = (Inl e, srv\<lparr>total_samples := total_samples_of (updates srv)\<rparr>)"
    using assms(1,2) by (simp add: process_reports_body_def aggregate_step_def Let_def)
  moreover have "e \<noteq> StopIteration"
    using assms(3) aggregate_deltas_not_stop [of srv "updates srv" ds] by auto
  ultimately show ?thesis by (simp add: process_reports_def coroutine_result_def)
qed

lemma empty_report_deltas:
  "compute_weight_deltas delta_env (model_weights empty_report_server)
     (map payload (updates empty_report_server)) = Inr [[(''w'', Tensor [2] [0, 0])]]"
  by (simp add: delta_env_def empty_report_server_def empty_report_def scenario_baseline_def
      spec_compute_weight_deltas_def subtract_weights_def tensor_sub_def)

text \<open>
  Claim C4, as amended. With no report the aggregation raises \<open>IndexError\<close>. With at
  least one report, a zero sample total and a first delta that has a parameter, it raises
  \<open>ZeroDivisionError\<close>. In delta mode an exception of the aggregation leaves
  \<^verbatim>\<open>_process_reports\<close> before any weights are loaded: the model weights are
  unchanged, and the only field written is \<open>total_samples\<close>.
\<close>

theorem aggregation_failures:
  "(upds = [] \<longrightarrow> fst (aggregate_deltas srv upds deltas) = Inl IndexError)
   \<and> (upds \<noteq> [] \<and> total_samples_of upds = 0 \<and> deltas \<noteq> [] \<and> hd deltas \<noteq> []
        \<longrightarrow> fst (aggregate_deltas srv upds deltas) = Inl ZeroDivisionError)
   \<and> (aggregate_weights env = None
        \<and> compute_weight_deltas env (model_weights srv0) (map payload (updates srv0)) = Inr ds
        \<and> fst (aggregate_deltas srv0 (updates srv0) ds) = Inl e
        \<longrightarrow> process_reports env srv0
              = (Inl e, srv0\<lparr>total_samples := total_samples_of (updates srv0)\<rparr>)
            \<and> model_weights (snd (process_reports env srv0)) = model_weights srv0)"
  using aggregate_deltas_no_updates [of srv deltas]
    aggregate_deltas_zero_total [of upds deltas srv]
    process_reports_aggregation_failure [of env srv0 ds e]
  by auto

theorem aggregation_failures_witness:
  "fst (aggregate_deltas scenario_server [] []) = Inl IndexError
   \<and> fst (aggregate_deltas empty_report_server [empty_report scenario_baseline]
            [[(''w'', Tensor [2] [0, 0])]]) = Inl ZeroDivisionError
   \<and> process_reports delta_env empty_report_server
       = (Inl ZeroDivisionError, empty_report_server\<lparr>total_samples := 0\<rparr>)
   \<and> model_weights (snd (process_reports delta_env empty_report_server)) = scenario_baseline"
proof -
  have t: "total_samples_of [empty_report scenario_baseline] = 0"
    by (simp add: total_samples_of_def py_sum_int_def empty_report_def)
  have u: "updates empty_report_server = [empty_report scenario_baseline]"
    by (simp add: empty_report_server_def)
  have a: "aggregate_weights delta_env = None" by (simp add: delta_env_def)
  have m: "model_weights empty_report_server = scenario_baseline"
    by (simp add: empty_report_server_def)
  note th = aggregation_failures [of "[]" scenario_server "[]" delta_env empty_report_server
        "[[(''w'', Tensor [2] [0, 0])]]" ZeroDivisionError]
    aggregation_failures [of "[empty_report scenario_baseline]" empty_report_server
        "[[(''w'', Tensor [2] [0, 0])]]" delta_env empty_report_server
        "[[(''w'', Tensor [2] [0, 0])]]" ZeroDivisionError]
  from th show ?thesis
    using empty_report_deltas by (simp add: t u a m)
qed

text \<open>
  The claim as first stated has every non-empty batch with a zero sample total fail.
  One report with no samples for a model without parameters aggregates, without an
  exception, to the empty store.
\<close>

theorem aggregation_failures_counterexample:
  "[empty_report []] \<noteq> [] \<and> total_samples_of [empty_report []] = 0
   \<and> fst (aggregate_deltas scenario_server [empty_report []] [[]]) = Inr []"
  by (simp add: aggregate_deltas_def total_samples_of_def py_sum_int_def empty_report_def Let_def)


section \<open>The averaged delta is the weighted sum\<close>

text \<open>
  For a valid batch \<^verbatim>\<open>aggregate_deltas\<close> returns, for each parameter, the sum over the
  reports in arrival order of the report's delta scaled by its share of the samples
  (\<open>aggregate_deltas_formula\<close>), entry by entry (\<open>aggregate_deltas_entries\<close>).
\<close>

lemma foldl_contribution_total:
  assumes "\<forall>(u, d)\<in>set uds. map_of d name \<noteq> None"
  shows "foldl (contribution tot name) z uds =
         foldl tadd z (map (\<lambda>(u, d). tensor_scale (the (map_of d name))
                              (real_of_int (num_samples (report u)) / real_of_int tot)) uds)"
  using assms
proof (induction uds arbitrary: z)
  case Nil
  then show ?case by simp
next
  case (Cons ud uds)
  obtain u d where ud: "ud = (u, d)" by (cases ud)
  with Cons.prems obtain t where t: "map_of d name = Some t" by auto
  have "contribution tot name z ud
        = tadd z (tensor_scale t (real_of_int (num_samples (report u)) / real_of_int tot))"
    by (simp add: ud contribution_pair t)
  with Cons ud t show ?case by simp
qed

lemma valid_batch_names:
  assumes "valid_batch baseline upds deltas" and "d \<in> set deltas"
    and "(name, t0) \<in> set (hd deltas)"
  shows "\<exists>t. map_of d name = Some t \<and> shape t = shape t0"
proof -
  have sd: "schema d = schema (hd deltas)"
    using assms(1,2) valid_batch_hd(3) [OF assms(1)] by (simp add: valid_batch_def list_all_iff)
  have dd: "distinct (map fst d)"
    using assms(1,2) by (simp add: valid_batch_def list_all_iff)
  from assms(3) have "(name, shape t0) \<in> schema (hd deltas)" by (force simp add: schema_def)
  with sd have "(name, shape t0) \<in> schema d" by simp
  then obtain p where p: "p \<in> set d" "(name, shape t0) = (case p of (n, t) \<Rightarrow> (n, shape t))"
    by (auto simp add: schema_def)
  obtain n t where nt: "p = (n, t)" by (cases p)
  with p have t: "(name, t) \<in> set d" "shape t = shape t0" by simp_all
  from dd t(1) have "map_of d name = Some t" by (rule map_of_is_SomeI)
  with t(2) show ?thesis by simp
qed

lemma aggregate_deltas_formula:
  assumes "valid_batch baseline upds deltas"
  shows "fst (aggregate_deltas srv upds deltas) = Inr (avg_delta_spec upds deltas)"
proof -
  let ?N = "total_samples_of upds"
  have "foldl (contribution ?N name) (zeros (shape t0)) (zip upds deltas)
        = foldl tadd (zeros (shape t0))
            (map (\<lambda>(u, d). tensor_scale (the (map_of d name))
                    (real_of_int (num_samples (report u)) / real_of_int ?N)) (zip upds deltas))"
    if "(name, t0) \<in> set (hd deltas)" for name t0
  proof -
    have "map_of d name \<noteq> None" if z: "(u, d) \<in> set (zip upds deltas)" for u d
    proof -
      from z have "d \<in> set deltas" by (rule set_zip_rightD)
      from valid_batch_names [OF assms this \<open>(name, t0) \<in> set (hd deltas)\<close>]
      show ?thesis by auto
    qed
    then have "\<forall>(u, d)\<in>set (zip upds deltas). map_of d name \<noteq> None" by auto
    then show ?thesis by (rule foldl_contribution_total)
  qed
  then have "map (\<lambda>(name, t0).
                (name, foldl (contribution ?N name) (zeros (shape t0)) (zip upds deltas)))
              (hd deltas) = avg_delta_spec upds deltas"
    unfolding avg_delta_spec_def by (intro map_cong) auto
  with aggregate_deltas_valid [OF assms, of srv] show ?thesis by simp
qed

lemma entries_tadd:
  "length (entries b) = length (entries a) \<Longrightarrow>
   entries (tadd a b) = map (\<lambda>k. entries a ! k + entries b ! k) [0..<length (entries a)]"
  by (rule nth_equalityI) (simp_all add: tadd_def)

lemma entries_foldl_tadd:
  assumes "\<forall>t\<in>set ts. length (entries t) = length (entries z)"
  shows "entries (foldl tadd z ts) =
         map (\<lambda>k. entries z ! k + (\<Sum>t\<leftarrow>ts. entries t ! k)) [0..<length (entries z)]"
  using assms
proof (induction ts arbitrary: z)
  case Nil
  then show ?case by (simp add: map_nth)
next
  case (Cons t ts)
  have l: "length (entries t) = length (entries z)" using Cons.prems by simp
  have e: "entries (tadd z t) = map (\<lambda>k. entries z ! k + entries t ! k) [0..<length (entries z)]"
    using l by (rule entries_tadd)
  then have len: "length (entries (tadd z t)) = length (entries z)" by simp
  have "\<forall>t'\<in>set ts. length (entries t') = length (entries (tadd z t))"
    using Cons.prems len by simp
  from Cons.IH [OF this] show ?case
    by (simp add: len e add.assoc)
qed

lemma entries_zeros: "entries (zeros sh) = replicate (prod_list sh) 0"
  by (simp add: zeros_def)

lemma entries_weighted_sum:
  assumes "\<forall>t\<in>set ts. length (entries t) = prod_list sh" and "k < prod_list sh"
  shows "entries (foldl tadd (zeros sh) ts) ! k = (\<Sum>t\<leftarrow>ts. entries t ! k)"
proof -
  have "\<forall>t\<in>set ts. length (entries t) = length (entries (zeros sh))"
    using assms(1) by (simp add: entries_zeros)
  from entries_foldl_tadd [OF this] assms(2) show ?thesis
    by (simp add: entries_zeros)
qed

lemma accuracy_loop_value:
  assumes "tot \<noteq> 0"
  shows "accuracy_loop acc rs tot =
         Inr (acc + (\<Sum>r\<leftarrow>rs. accuracy r * (real_of_int (num_samples r) / real_of_int tot)))"
  using assms by (induction rs arbitrary: acc) (simp_all add: truediv_def add.assoc)

lemma accuracy_averaging_mean:
  assumes "py_sum_int (map num_samples reports) \<noteq> 0"
  shows "accuracy_averaging reports =
         Inr (\<Sum>r\<leftarrow>reports. accuracy r
                * (real_of_int (num_samples r) / real_of_int (py_sum_int (map num_samples reports))))"
  using accuracy_loop_value [OF assms, of 0 reports] by (simp add: accuracy_averaging_def)

lemma shape_foldl_tadd [simp]: "shape (foldl tadd z ts) = shape z"
  by (induction ts arbitrary: z) simp_all

lemma entries_tensor_scale: "entries (tensor_scale t c) = map (\<lambda>x. x * c) (entries t)"
  by (simp add: tensor_scale_def)

lemma aggregate_deltas_entries:
  assumes "valid_batch baseline upds deltas"
    and "list_all (list_all (\<lambda>(name, t). wf_tensor t)) deltas"
    and "(name, t0) \<in> set (hd deltas)" and "k < prod_list (shape t0)"
  shows "\<exists>avg t. fst (aggregate_deltas srv upds deltas) = Inr avg
           \<and> map_of avg name = Some t \<and> shape t = shape t0
           \<and> entries t ! k =
               (\<Sum>(u, d)\<leftarrow>zip upds deltas.
                  entries (the (map_of d name)) ! k
                  * (real_of_int (num_samples (report u)) / real_of_int (total_samples_of upds)))"
proof -
  let ?N = "total_samples_of upds"
  let ?w = "\<lambda>u. real_of_int (num_samples (report u)) / real_of_int ?N"
  let ?ts = "map (\<lambda>(u, d). tensor_scale (the (map_of d name)) (?w u)) (zip upds deltas)"
  let ?t = "foldl tadd (zeros (shape t0)) ?ts"
  have r: "fst (aggregate_deltas srv upds deltas) = Inr (avg_delta_spec upds deltas)"
    by (rule aggregate_deltas_formula [OF assms(1)])
  have "map_of (hd deltas) name = Some t0"
    using valid_batch_hd(2) [OF assms(1)] assms(3) by (rule map_of_is_SomeI)
  then have m: "map_of (avg_delta_spec upds deltas) name = Some ?t"
    unfolding avg_delta_spec_def by (simp add: map_of_map_keyed)
  have sh: "shape ?t = shape t0"
    by simp
  have len: "length (entries (the (map_of d name))) = prod_list (shape t0)"
    if z: "(u, d) \<in> set (zip upds deltas)" for u d
  proof -
    from z have d: "d \<in> set deltas" by (rule set_zip_rightD)
    from valid_batch_names [OF assms(1) d assms(3)]
    obtain t where t: "map_of d name = Some t" "shape t = shape t0" by blast
    from t(1) have "(name, t) \<in> set d" by (rule map_of_SomeD)
    with assms(2) d have "wf_tensor t" by (auto simp add: list_all_iff)
    with t show ?thesis by (simp add: wf_tensor_def)
  qed
  then have "\<forall>t\<in>set ?ts. length (entries t) = prod_list (shape t0)"
    by (auto simp add: entries_tensor_scale)
  from entries_weighted_sum [OF this assms(4)]
  have "entries ?t ! k = (\<Sum>t\<leftarrow>?ts. entries t ! k)" .
  also have "\<dots> = (\<Sum>(u, d)\<leftarrow>zip upds deltas. entries (the (map_of d name)) ! k * ?w u)"
  proof -
    have "map (\<lambda>t. entries t ! k) ?ts
          = map (\<lambda>(u, d). entries (the (map_of d name)) ! k * ?w u) (zip upds deltas)"
      using len assms(4) by (auto simp add: entries_tensor_scale)
    then show ?thesis by (rule arg_cong [where f = sum_list])
  qed
  finally show ?thesis using r m sh by blast
qed

section \<open>The older server\<close>

lemma add_baseline_raises: "\<exists>e. add_baseline avg_update i (key # keys) updated = Inl e"
  by (cases "unpack_pair key")
     (auto simp add: str_add_tensor_def split: prod.splits)

lemma federated_averaging_raises:
  assumes "model_weights srv \<noteq> []"
  shows "\<exists>e. fst (federated_averaging srv reports) = Inl e"
proof -
  obtain key keys where k: "map fst (model_weights srv) = key # keys"
    using assms by (cases "model_weights srv") auto
  have "\<exists>e. add_baseline avg 0 (map fst (model_weights srv)) [] = Inl e" for avg
    unfolding k by (rule add_baseline_raises)
  then show ?thesis
    by (auto simp add: federated_averaging_def extract_weights_def Let_def
        split: sum.splits list.splits)
qed

lemma scenario_updates_extracted:
  "compute_weight_updates scenario_server (map weights scenario_reports)
   = Inr [[(''w'', Tensor [2] [0, 0])], [(''w'', Tensor [2] [4, 0])]]"
  by (simp add: compute_weight_updates_def weight_update_def extract_weights_def
      scenario_server_def scenario_baseline_def scenario_reports_def tensor_sub_def Let_def)

lemma scenario_average:
  "average_updates [zeros [2]] scenario_reports 4 0
     [[(''w'', Tensor [2] [0, 0])], [(''w'', Tensor [2] [4, 0])]]
   = Inr [Tensor [2] [3, 0]]"
  by (simp add: scenario_reports_def zeros_def truediv_def tensor_add_def tensor_scale_def
      numeral_2_eq_2)

lemma spec_update_scenario:
  "spec_update_weights scenario_baseline [(''w'', Tensor [2] [3, 0])]
   = Inr [(''w'', Tensor [2] [4, 1])]"
  by (simp add: spec_update_weights_def scenario_baseline_def tensor_add_def)


text \<open>
  Claim C1, at its scenario, on the older server. The weighted average of the two deltas
  is computed (\<open>[3, 0]\<close>, lemma \<open>scenario_average\<close>), but the loop that should add
  it to the baseline iterates the keys of the state dictionary: unpacking the key
  \<open>w\<close> into \<open>(name, weight)\<close> raises \<open>ValueError\<close>, and no updated weights are
  returned. Lemma \<open>federated_averaging_raises\<close> has the same for every model with
  at least one parameter.
\<close>

theorem federated_averaging_scenario:
  "federated_averaging scenario_server scenario_reports
   = (Inl ValueError, scenario_server\<lparr>total_samples := 4\<rparr>)"
proof -
  have t: "py_sum_int (map num_samples scenario_reports) = 4"
    by (simp add: py_sum_int_def scenario_reports_def)
  have b: "map fst (extract_weights (scenario_server\<lparr>total_samples := 4\<rparr>)) = [''w'']"
    by (simp add: extract_weights_def scenario_server_def scenario_baseline_def)
  have a: "add_baseline [Tensor [2] [3, 0]] 0 [''w''] [] = Inl ValueError"
    by (simp add: unpack_pair_def)
  show ?thesis
    by (simp add: federated_averaging_def scenario_updates_extracted t Let_def
        scenario_average b a del: average_updates.simps add_baseline.simps)
qed



section \<open>What aggregation writes\<close>

text \<open>
  The store version of \<^verbatim>\<open>aggregate_deltas\<close> leaves every object that existed
  before the call as it was (\<open>aggregate_deltas_h_frame\<close>), and it computes what the
  value version computes (\<open>aggregate_deltas_h_refines\<close>).
\<close>

lemma alloc_zeros_frame:
  assumes "alloc_zeros h items = (avg, h')"
  shows "take (length h) h' = h \<and> length h \<le> length h' \<and> list_all (\<lambda>(name, r). length h \<le> r) avg"
  using assms
proof (induction items arbitrary: h avg h')
  case Nil
  then show ?case by simp
next
  case (Cons p items)
  obtain name a where p: "p = (name, a)" by (cases p)
  obtain rest h2 where r: "alloc_zeros (h @ [zeros (shape (h ! a))]) items = (rest, h2)"
    by (cases "alloc_zeros (h @ [zeros (shape (h ! a))]) items")
  from Cons.prems p r have avg: "avg = (name, length h) # rest" and h': "h' = h2"
    by (simp_all add: alloc_def)
  from Cons.IH [OF r]
  have t: "take (Suc (length h)) h2 = h @ [zeros (shape (h ! a))]"
    and l: "Suc (length h) \<le> length h2"
    and f: "list_all (\<lambda>(name, r). Suc (length h) \<le> r) rest"
    by simp_all
  have "take (length h) h2 = take (length h) (take (Suc (length h)) h2)" by simp
  also have "\<dots> = h" by (simp only: t) simp
  finally have "take (length h) h2 = h" .
  moreover from f have "list_all (\<lambda>(name, r). length h \<le> r) rest"
    by (auto simp add: list_all_iff)
  ultimately show ?case using l avg h' by simp
qed

lemma accumulate_delta_h_frame:
  assumes "list_all (\<lambda>(name, r). n0 \<le> r) avg"
  shows "take n0 (snd (accumulate_delta_h h avg items n tot)) = take n0 h
         \<and> length (snd (accumulate_delta_h h avg items n tot)) = length h"
proof (induction items arbitrary: h)
  case Nil
  show ?case by simp
next
  case (Cons p items)
  obtain name a where p: "p = (name, a)" by (cases p)
  show ?case
  proof (cases "map_of avg name")
    case None
    then show ?thesis by (simp add: p)
  next
    case (Some r)
    then have "(name, r) \<in> set avg" by (rule map_of_SomeD)
    with assms have r: "n0 \<le> r" by (auto simp add: list_all_iff)
    show ?thesis
      using Some r Cons.IH
      by (auto simp add: p split: sum.splits)
  qed
qed

lemma aggregate_loop_h_frame:
  assumes "list_all (\<lambda>(name, r). n0 \<le> r) avg"
  shows "take n0 (snd (aggregate_loop_h h avg upds tot i ds)) = take n0 h
         \<and> length (snd (aggregate_loop_h h avg upds tot i ds)) = length h"
proof (induction ds arbitrary: h i)
  case Nil
  show ?case by simp
next
  case (Cons d ds)
  show ?case
  proof (cases "i < length upds")
    case False
    then show ?thesis by simp
  next
    case True
    obtain res h1 where a: "accumulate_delta_h h avg d (num_samples (report (upds ! i))) tot = (res, h1)"
      by (cases "accumulate_delta_h h avg d (num_samples (report (upds ! i))) tot")
    from accumulate_delta_h_frame [OF assms, of h d "num_samples (report (upds ! i))" tot] a
    have f: "take n0 h1 = take n0 h" "length h1 = length h" by simp_all
    show ?thesis
      using True a f Cons.IH [of h1 "Suc i"]
      by (cases res) simp_all
  qed
qed

lemma aggregate_deltas_h_frame:
  "take (length h) (fst (snd (aggregate_deltas_h h srv upds deltas))) = h
   \<and> snd (snd (aggregate_deltas_h h srv upds deltas)) = srv\<lparr>total_samples := total_samples_of upds\<rparr>"
proof (cases deltas)
  case Nil
  then show ?thesis by (simp add: aggregate_deltas_h_def Let_def)
next
  case (Cons first rest)
  obtain avg h0 where z: "alloc_zeros h first = (avg, h0)" by (cases "alloc_zeros h first")
  from alloc_zeros_frame [OF z]
  have t: "take (length h) h0 = h" and f: "list_all (\<lambda>(name, r). length h \<le> r) avg"
    by simp_all
  let ?N = "total_samples_of upds"
  obtain res h1 where l: "aggregate_loop_h h0 avg upds ?N 0 deltas = (res, h1)"
    by (cases "aggregate_loop_h h0 avg upds ?N 0 deltas")
  from aggregate_loop_h_frame [OF f, of h0 upds ?N 0 deltas] l t
  have "take (length h) h1 = h" by simp
  then show ?thesis
    using Cons z l
    by (cases res) (simp_all add: aggregate_deltas_h_def Let_def del: aggregate_loop_h.simps)
qed

lemma map_of_deref: "map_of (deref h d) name = map_option (\<lambda>a. h ! a) (map_of d name)"
  by (induction d) (auto simp add: deref_def)

lemma deref_cong:
  assumes "\<forall>(name, a)\<in>set d. h' ! a = h ! a"
  shows "deref h' d = deref h d"
  using assms by (auto simp add: deref_def)

lemma deref_below:
  assumes "take n0 h' = take n0 h" and "list_all (\<lambda>(name, a). a < n0) d"
  shows "deref h' d = deref h d"
proof (rule deref_cong, clarify)
  fix name a assume "(name, a) \<in> set d"
  with assms(2) have "a < n0" by (auto simp add: list_all_iff)
  then have "h' ! a = take n0 h' ! a" "h ! a = take n0 h ! a" by simp_all
  with assms(1) show "h' ! a = h ! a" by simp
qed

lemma deref_update:
  assumes "distinct (map snd avg)" and "map_of avg name = Some r"
    and "list_all (\<lambda>(name, r). r < length h) avg"
  shows "deref (h[r := new]) avg = AList.update name new (deref h avg)"
  using assms
proof (induction avg)
  case Nil
  then show ?case by simp
next
  case (Cons p avg)
  obtain k s where p: "p = (k, s)" by (cases p)
  show ?case
  proof (cases "k = name")
    case True
    with Cons.prems(2) p have s: "s = r" by simp
    have "r \<notin> snd ` set avg" using Cons.prems(1) p s by auto
    then have "\<forall>(name, a)\<in>set avg. a \<noteq> r" by force
    then have "\<forall>(name, a)\<in>set avg. h[r := new] ! a = h ! a" by auto
    then have "deref (h[r := new]) avg = deref h avg" by (rule deref_cong)
    moreover have "r < length h" using Cons.prems(3) p s by simp
    ultimately show ?thesis using True p s by (simp add: deref_def)
  next
    case False
    with Cons.prems(2) p have m: "map_of avg name = Some r" by simp
    then have "(name, r) \<in> set avg" by (rule map_of_SomeD)
    then have "r \<in> snd ` set avg" by (force simp add: image_iff)
    with Cons.prems(1) p have "s \<noteq> r" by auto
    moreover have "deref (h[r := new]) avg = AList.update name new (deref h avg)"
      using Cons.prems(1,3) m by (intro Cons.IH) simp_all
    ultimately show ?thesis using False p by (simp add: deref_def)
  qed
qed

lemma accumulate_delta_h_refines:
  assumes "distinct (map snd avg)"
    and "list_all (\<lambda>(name, r). n0 \<le> r \<and> r < length h) avg"
    and "list_all (\<lambda>(name, a). a < n0) items"
  shows "case accumulate_delta_h h avg items n tot of
           (Inl e, h') \<Rightarrow> accumulate_delta (deref h avg) (deref h items) n tot = Inl e
         | (Inr u, h') \<Rightarrow> accumulate_delta (deref h avg) (deref h items) n tot = Inr (deref h' avg)"
  using assms(2,3)
proof (induction items arbitrary: h)
  case Nil
  then show ?case by (simp add: deref_def)
next
  case (Cons p items)
  obtain name a where p: "p = (name, a)" by (cases p)
  have a: "a < n0" and rest: "list_all (\<lambda>(name, a). a < n0) items"
    using Cons.prems(2) p by simp_all
  have hd: "deref h ((name, a) # items) = (name, h ! a) # deref h items"
    by (simp add: deref_def)
  show ?case
  proof (cases "map_of avg name")
    case None
    then show ?thesis by (simp add: p hd map_of_deref)
  next
    case (Some r)
    then have "(name, r) \<in> set avg" by (rule map_of_SomeD)
    with Cons.prems(1) have r: "n0 \<le> r" "r < length h" by (auto simp add: list_all_iff)
    show ?thesis
    proof (cases "truediv n tot")
      case (Inl e)
      with Some show ?thesis by (simp add: p hd map_of_deref)
    next
      case (Inr w)
      show ?thesis
      proof (cases "tensor_add (h ! r) (tensor_scale (h ! a) w)")
        case (Inl e)
        with Some Inr show ?thesis by (simp add: p hd map_of_deref)
      next
        case new: (Inr new)
        let ?h1 = "h[r := new]"
        have below: "list_all (\<lambda>(name, r). r < length h) avg"
          using Cons.prems(1) by (auto simp add: list_all_iff)
        have u: "deref ?h1 avg = AList.update name new (deref h avg)"
          by (rule deref_update [OF assms(1) Some below])
        have "take n0 ?h1 = take n0 h" using r(1) by simp
        then have i: "deref ?h1 items = deref h items"
          using rest by (rule deref_below)
        have b1: "list_all (\<lambda>(name, r). n0 \<le> r \<and> r < length ?h1) avg"
          using Cons.prems(1) by simp
        obtain res h' where rr: "accumulate_delta_h ?h1 avg items n tot = (res, h')"
          by (cases "accumulate_delta_h ?h1 avg items n tot")
        show ?thesis
        proof (cases res)
          case e: (Inl e)
          from Cons.IH [OF b1 rest] rr e
          have "accumulate_delta (deref ?h1 avg) (deref ?h1 items) n tot = Inl e" by simp
          then have "accumulate_delta (AList.update name new (deref h avg)) (deref h items) n tot
                     = Inl e"
            by (simp only: u i)
          with Some Inr new rr e show ?thesis by (simp add: p hd map_of_deref)
        next
          case v: (Inr v)
          from Cons.IH [OF b1 rest] rr v
          have "accumulate_delta (deref ?h1 avg) (deref ?h1 items) n tot = Inr (deref h' avg)"
            by simp
          then have "accumulate_delta (AList.update name new (deref h avg)) (deref h items) n tot
                     = Inr (deref h' avg)"
            by (simp only: u i)
          with Some Inr new rr v show ?thesis by (simp add: p hd map_of_deref)
        qed
      qed
    qed
  qed
qed


lemma map_deref_below:
  assumes "take n0 h' = take n0 h" and "list_all (list_all (\<lambda>(name, a). a < n0)) ds"
  shows "map (deref h') ds = map (deref h) ds"
  using assms by (auto simp add: list_all_iff intro!: deref_below)

lemma aggregate_loop_h_refines:
  assumes "distinct (map snd avg)"
    and "list_all (\<lambda>(name, r). n0 \<le> r \<and> r < length h) avg"
    and "list_all (list_all (\<lambda>(name, a). a < n0)) ds"
  shows "case aggregate_loop_h h avg upds tot i ds of
           (Inl e, h') \<Rightarrow> aggregate_loop (deref h avg) upds tot i (map (deref h) ds) = Inl e
         | (Inr u, h') \<Rightarrow>
             aggregate_loop (deref h avg) upds tot i (map (deref h) ds) = Inr (deref h' avg)"
  using assms(2,3)
proof (induction ds arbitrary: h i)
  case Nil
  then show ?case by simp
next
  case (Cons d ds)
  have d: "list_all (\<lambda>(name, a). a < n0) d"
    and ds: "list_all (list_all (\<lambda>(name, a). a < n0)) ds"
    using Cons.prems(2) by simp_all
  have fresh: "list_all (\<lambda>(name, r). n0 \<le> r) avg"
    using Cons.prems(1) by (auto simp add: list_all_iff)
  show ?case
  proof (cases "i < length upds")
    case False
    then show ?thesis by simp
  next
    case True
    let ?n = "num_samples (report (upds ! i))"
    obtain res h1 where a: "accumulate_delta_h h avg d ?n tot = (res, h1)"
      by (cases "accumulate_delta_h h avg d ?n tot")
    note inner = accumulate_delta_h_refines [OF assms(1) Cons.prems(1) d, of ?n tot]
    from accumulate_delta_h_frame [OF fresh, of h d ?n tot] a
    have f: "take n0 h1 = take n0 h" "length h1 = length h" by simp_all
    show ?thesis
    proof (cases res)
      case e: (Inl e)
      from inner a e have "accumulate_delta (deref h avg) (deref h d) ?n tot = Inl e" by simp
      with True a e show ?thesis by simp
    next
      case v: (Inr v)
      from inner a v
      have p: "accumulate_delta (deref h avg) (deref h d) ?n tot = Inr (deref h1 avg)" by simp
      have b1: "list_all (\<lambda>(name, r). n0 \<le> r \<and> r < length h1) avg"
        using Cons.prems(1) f(2) by simp
      have m: "map (deref h1) ds = map (deref h) ds"
        using f(1) ds by (rule map_deref_below)
      obtain res2 h2 where l: "aggregate_loop_h h1 avg upds tot (Suc i) ds = (res2, h2)"
        by (cases "aggregate_loop_h h1 avg upds tot (Suc i) ds")
      show ?thesis
      proof (cases res2)
        case e2: (Inl e2)
        from Cons.IH [OF b1 ds, of "Suc i"] l e2
        have "aggregate_loop (deref h1 avg) upds tot (Suc i) (map (deref h1) ds) = Inl e2"
          by simp
        then have "aggregate_loop (deref h1 avg) upds tot (Suc i) (map (deref h) ds) = Inl e2"
          by (simp only: m)
        with True a v p l e2 show ?thesis by simp
      next
        case v2: (Inr v2)
        from Cons.IH [OF b1 ds, of "Suc i"] l v2
        have "aggregate_loop (deref h1 avg) upds tot (Suc i) (map (deref h1) ds)
              = Inr (deref h2 avg)"
          by simp
        then have "aggregate_loop (deref h1 avg) upds tot (Suc i) (map (deref h) ds)
              = Inr (deref h2 avg)"
          by (simp only: m)
        with True a v p l v2 show ?thesis by simp
      qed
    qed
  qed
qed

lemma alloc_zeros_refs:
  assumes "alloc_zeros h items = (avg, h')"
  shows "distinct (map snd avg)
         \<and> list_all (\<lambda>(name, r). length h \<le> r \<and> r < length h') avg"
  using assms
proof (induction items arbitrary: h avg h')
  case Nil
  then show ?case by simp
next
  case (Cons p items)
  obtain name a where p: "p = (name, a)" by (cases p)
  obtain rest h2 where r: "alloc_zeros (h @ [zeros (shape (h ! a))]) items = (rest, h2)"
    by (cases "alloc_zeros (h @ [zeros (shape (h ! a))]) items")
  from Cons.prems p r have avg: "avg = (name, length h) # rest" and h': "h' = h2"
    by (simp_all add: alloc_def)
  from Cons.IH [OF r]
  have d: "distinct (map snd rest)"
    and b: "list_all (\<lambda>(name, r). Suc (length h) \<le> r \<and> r < length h2) rest"
    by simp_all
  from alloc_zeros_frame [OF r] have l: "Suc (length h) \<le> length h2" by simp
  from b have "length h \<notin> snd ` set rest" by (force simp add: list_all_iff)
  moreover from b have "list_all (\<lambda>(name, r). length h \<le> r \<and> r < length h2) rest"
    by (auto simp add: list_all_iff)
  ultimately show ?case using d l by (simp add: avg h')
qed

lemma alloc_zeros_deref:
  assumes "alloc_zeros h items = (avg, h')" and "list_all (\<lambda>(name, a). a < length h) items"
  shows "deref h' avg = map (\<lambda>(name, delta). (name, zeros (shape delta))) (deref h items)"
  using assms
proof (induction items arbitrary: h avg h')
  case Nil
  then show ?case by (simp add: deref_def)
next
  case (Cons p items)
  obtain name a where p: "p = (name, a)" by (cases p)
  let ?h1 = "h @ [zeros (shape (h ! a))]"
  obtain rest h2 where r: "alloc_zeros ?h1 items = (rest, h2)"
    by (cases "alloc_zeros ?h1 items")
  from Cons.prems(1) p r have avg: "avg = (name, length h) # rest" and h': "h' = h2"
    by (simp_all add: alloc_def)
  have v: "list_all (\<lambda>(name, a). a < length h) items" using Cons.prems(2) by simp
  then have v1: "list_all (\<lambda>(name, a). a < length ?h1) items"
    by (auto simp add: list_all_iff)
  from alloc_zeros_frame [OF r] have t: "take (length ?h1) h2 = ?h1" by simp
  have "h2 ! length h = take (length ?h1) h2 ! length h" by simp
  also have "\<dots> = zeros (shape (h ! a))" by (simp only: t) simp
  finally have z: "h2 ! length h = zeros (shape (h ! a))" .
  have "take (length h) ?h1 = take (length h) h" by simp
  then have same: "deref ?h1 items = deref h items" using v by (rule deref_below)
  from Cons.IH [OF r v1] same
  have "deref h2 rest = map (\<lambda>(name, delta). (name, zeros (shape delta))) (deref h items)"
    by simp
  with z show ?case by (simp add: avg h' p deref_def)
qed

lemma aggregate_deltas_h_refines:
  assumes "list_all (list_all (\<lambda>(name, a). a < length h)) deltas"
  shows "case aggregate_deltas_h h srv upds deltas of
           (Inl e, h', srv') \<Rightarrow> aggregate_deltas srv upds (map (deref h) deltas) = (Inl e, srv')
         | (Inr avg, h', srv') \<Rightarrow>
             aggregate_deltas srv upds (map (deref h) deltas) = (Inr (deref h' avg), srv')"
proof (cases deltas)
  case Nil
  then show ?thesis by (simp add: aggregate_deltas_h_def aggregate_deltas_def Let_def)
next
  case (Cons first rest)
  let ?N = "total_samples_of upds"
  obtain avg h0 where z: "alloc_zeros h first = (avg, h0)" by (cases "alloc_zeros h first")
  have vf: "list_all (\<lambda>(name, a). a < length h) first" using assms Cons by simp
  from alloc_zeros_frame [OF z] have t: "take (length h) h0 = take (length h) h" by simp
  from alloc_zeros_refs [OF z]
  have dist: "distinct (map snd avg)"
    and bounds: "list_all (\<lambda>(name, r). length h \<le> r \<and> r < length h0) avg"
    by simp_all
  have a0: "deref h0 avg = map (\<lambda>(name, delta). (name, zeros (shape delta))) (deref h first)"
    by (rule alloc_zeros_deref [OF z vf])
  have m: "map (deref h0) deltas = map (deref h) deltas"
    using t assms by (rule map_deref_below)
  have pure: "aggregate_deltas srv upds (map (deref h) deltas)
        = (aggregate_loop (deref h0 avg) upds ?N 0 (map (deref h0) deltas),
           srv\<lparr>total_samples := ?N\<rparr>)"
    by (simp only: m a0) (simp add: aggregate_deltas_def Let_def Cons del: aggregate_loop.simps)
  obtain res h1 where l: "aggregate_loop_h h0 avg upds ?N 0 deltas = (res, h1)"
    by (cases "aggregate_loop_h h0 avg upds ?N 0 deltas")
  note loop = aggregate_loop_h_refines [OF dist bounds assms, of upds ?N 0]
  show ?thesis
  proof (cases res)
    case e: (Inl e)
    from loop l e have "aggregate_loop (deref h0 avg) upds ?N 0 (map (deref h0) deltas) = Inl e"
      by simp
    with pure z l e Cons show ?thesis
      by (simp add: aggregate_deltas_h_def Let_def del: aggregate_loop_h.simps aggregate_loop.simps)
  next
    case v: (Inr v)
    from loop l v
    have "aggregate_loop (deref h0 avg) upds ?N 0 (map (deref h0) deltas) = Inr (deref h1 avg)"
      by simp
    with pure z l v Cons show ?thesis
      by (simp add: aggregate_deltas_h_def Let_def del: aggregate_loop_h.simps aggregate_loop.simps)
  qed
qed

lemma federated_averaging_server:
  "snd (federated_averaging srv reports) = srv
   \<or> snd (federated_averaging srv reports)
       = srv\<lparr>total_samples := py_sum_int (map num_samples reports)\<rparr>"
  by (simp add: federated_averaging_def Let_def split: sum.splits list.splits)

lemma scenario_store_run:
  "aggregate_deltas_h scenario_store scenario_server two_updates scenario_delta_refs
   = (Inr [(''w'', 5)], scenario_store @ [Tensor [2] [3, 0]], scenario_server\<lparr>total_samples := 4\<rparr>)"
  by (simp add: aggregate_deltas_h_def scenario_store_def scenario_delta_refs_def
      two_updates_def total_samples_of_def py_sum_int_def alloc_def zeros_def truediv_def
      tensor_add_def tensor_scale_def Let_def numeral_2_eq_2)

text \<open>
  Claim C8, as amended. Aggregation writes one field of the server,
  \<^verbatim>\<open>self.total_samples\<close>, and apart from that has no effect beyond its result: every
  tensor object that existed before the call (the baseline, the payloads of the reports,
  the deltas) is unchanged, since the in-place additions go to the accumulator tensors
  allocated by the call. The older \<^verbatim>\<open>federated_averaging\<close> likewise leaves the
  server as it was or with \<^verbatim>\<open>total_samples\<close> assigned.
\<close>

theorem aggregation_frame:
  "take (length h) (fst (snd (aggregate_deltas_h h srv upds deltas))) = h
   \<and> snd (snd (aggregate_deltas_h h srv upds deltas))
       = srv\<lparr>total_samples := total_samples_of upds\<rparr>
   \<and> snd (aggregate_deltas srv upds ds) = srv\<lparr>total_samples := total_samples_of upds\<rparr>
   \<and> (snd (federated_averaging srv reports) = srv
        \<or> snd (federated_averaging srv reports)
            = srv\<lparr>total_samples := py_sum_int (map num_samples reports)\<rparr>)"
  using aggregate_deltas_h_frame [of h srv upds deltas] aggregate_deltas_server [of srv upds ds]
    federated_averaging_server [of srv reports]
  by simp

theorem aggregation_frame_witness:
  "fst (aggregate_deltas_h scenario_store scenario_server two_updates scenario_delta_refs)
     = Inr [(''w'', 5)]
   \<and> fst (snd (aggregate_deltas_h scenario_store scenario_server two_updates scenario_delta_refs))
     = scenario_store @ [Tensor [2] [3, 0]]
   \<and> take (length scenario_store)
       (fst (snd (aggregate_deltas_h scenario_store scenario_server two_updates
                    scenario_delta_refs))) = scenario_store"
  using aggregation_frame [of scenario_store scenario_server two_updates scenario_delta_refs
      scenario_deltas scenario_reports]
  by (simp add: scenario_store_run)

text \<open>
  The claim as first stated has no server state written. On the scenario the server's
  \<open>total_samples\<close> is 0 before the call and 4 after it.
\<close>

theorem aggregation_frame_counterexample:
  "total_samples scenario_server = 0
   \<and> total_samples (snd (aggregate_deltas scenario_server two_updates scenario_deltas)) = 4"
  by (simp add: aggregate_deltas_server)
     (simp add: scenario_server_def total_samples_of_def py_sum_int_def two_updates_def)


end
